theory Spec2Isabelle
  imports Main "HOL-Library.Multiset"
begin

section \<open>The tokenize route: chunking, the embedding client, the similarity index\<close>

text \<open>
  Source: \<^verbatim>\<open>src/app/api/tokenize/route.ts\<close>.

  The tokenizer (\<^verbatim>\<open>js-tiktoken\<close>) and the embedding service are libraries outside the
  repository, so they enter the model as parameters. JavaScript numbers are IEEE-754
  doubles; their arithmetic is not modelled. An embedding is therefore a value of an
  arbitrary type \<open>'v\<close>, and a similarity score is NaN or a number of an arbitrary
  linear order.
\<close>

subsection \<open>chunkText\<close>

text \<open>
  \<^verbatim>\<open>encoder.encode\<close> throws on text that contains a special token, hence the sum type.
  The tokenizer is the pair of \<open>encode\<close> and \<open>decode\<close>.
\<close>

record 'tok encoder =
  encode :: "string \<Rightarrow> string + 'tok list"
  decode :: "'tok list \<Rightarrow> string"

text \<open>\<^verbatim>\<open>tokens.slice(i, i + maxTokens)\<close> for \<open>0 \<le> i\<close>: the end is clipped to the length.\<close>

definition slice :: "'a list \<Rightarrow> nat \<Rightarrow> nat \<Rightarrow> 'a list" where
  "slice xs i j = take (j - i) (drop i xs)"

text \<open>
  The \<^verbatim>\<open>for (let i = 0; i < tokens.length; i += maxTokens)\<close> loop. With
  \<open>maxTokens = 0\<close> and a non-empty token list the loop never ends: the result is \<open>None\<close>.
\<close>

partial_function (option) chunk_loop ::
  "'tok encoder \<Rightarrow> 'tok list \<Rightarrow> nat \<Rightarrow> nat \<Rightarrow> string list \<Rightarrow> string list option" where
  "chunk_loop encoder tokens maxTokens i chunks =
     (if i < length tokens
      then chunk_loop encoder tokens maxTokens (i + maxTokens)
             (chunks @ [decode encoder (slice tokens i (i + maxTokens))])
      else Some chunks)"

text \<open>
  The result is \<open>None\<close> when the loop does not return, \<open>Some (Inl e)\<close> when the encoder
  throws \<open>e\<close>, and \<open>Some (Inr chunks)\<close> otherwise.
\<close>

definition chunkText ::
  "'tok encoder \<Rightarrow> string \<Rightarrow> nat \<Rightarrow> (string + string list) option" where
  "chunkText encoder text maxTokens =
     (case encode encoder text of
        Inl e \<Rightarrow> Some (Inl e)
      | Inr tokens \<Rightarrow>
          if length tokens \<le> maxTokens then Some (Inr [text])
          else map_option Inr (chunk_loop encoder tokens maxTokens 0 []))"

text \<open>
  \<^verbatim>\<open>text.replace(/<\|endoftext\|>/g, '')\<close>: one pass from left to right that drops every
  non-overlapping occurrence of the sentinel.
\<close>

definition endoftext :: string where
  "endoftext = ''<|endoftext|>''"

fun remove_all :: "string \<Rightarrow> string \<Rightarrow> string" where
  "remove_all pat [] = []"
| "remove_all pat (c # cs) =
     (if pat \<noteq> [] \<and> take (length pat) (c # cs) = pat
      then remove_all pat (drop (length pat) (c # cs))
      else c # remove_all pat cs)"

definition MAX_TOKENS_PER_CHUNK :: nat where
  "MAX_TOKENS_PER_CHUNK = 2048"

text \<open>The chunks that \<^verbatim>\<open>getEmbedding\<close> computes before it fetches any embedding.\<close>

definition getEmbedding_chunks :: "'tok encoder \<Rightarrow> string \<Rightarrow> (string + string list) option" where
  "getEmbedding_chunks encoder text =
     chunkText encoder (remove_all endoftext text) MAX_TOKENS_PER_CHUNK"

text \<open>The token windows of the loop, as lists of tokens.\<close>

fun windows :: "nat \<Rightarrow> 'a list \<Rightarrow> 'a list list" where
  "windows m xs =
     (if m = 0 \<or> xs = [] then [] else take m xs # windows m (drop m xs))"

declare windows.simps [simp del]

subsection \<open>fetchEmbedding\<close>

text \<open>
  What one \<^verbatim>\<open>fetch\<close> of the embeddings endpoint does: the call itself rejects
  (\<open>NetworkError\<close>), or a response arrives with its status, its status text and what
  reading \<^verbatim>\<open>(await response.json()).data[0].embedding\<close> gives: the exception it throws
  (\<open>Inl\<close>) or the embedding (\<open>Inr\<close>).
\<close>

datatype 'v fetch_result =
    NetworkError string
  | HttpResponse nat string "string + 'v"

text \<open>\<^verbatim>\<open>response.ok\<close>: the status is in the range 200 to 299.\<close>

definition response_ok :: "nat \<Rightarrow> bool" where
  "response_ok status = (200 \<le> status \<and> status \<le> 299)"

definition maxRetries :: nat where
  "maxRetries = 5"

text \<open>
  The \<^verbatim>\<open>while (true)\<close> loop of \<^verbatim>\<open>fetchEmbedding\<close>. The service is a function from
  the number of the call, counted from 0, to what that call does; every pass of the loop
  that does not leave it adds one to \<open>retryCount\<close>, so the number of the call is
  \<open>retryCount\<close>. The last argument collects the waiting times of
  \<^verbatim>\<open>setTimeout(res, waitTime)\<close> in milliseconds. The result is the pair of the outcome
  (\<open>Inl\<close> the message of the error thrown to the caller, \<open>Inr\<close> the embedding) and
  the waiting times.
\<close>

function fetchEmbedding_loop ::
  "(nat \<Rightarrow> 'v fetch_result) \<Rightarrow> nat \<Rightarrow> nat \<Rightarrow> nat list \<Rightarrow> (string + 'v) \<times> nat list" where
  "fetchEmbedding_loop fetch retryCount waitTime waits =
     (case fetch retryCount of
        NetworkError e \<Rightarrow>
          if retryCount < maxRetries
          then fetchEmbedding_loop fetch (retryCount + 1) (waitTime * 2) (waits @ [waitTime])
          else (Inl e, waits)
      | HttpResponse status statusText body \<Rightarrow>
          if status = 429 \<and> retryCount < maxRetries
          then fetchEmbedding_loop fetch (retryCount + 1) (waitTime * 2) (waits @ [waitTime])
          else if \<not> response_ok status
          then
            if retryCount < maxRetries
            then fetchEmbedding_loop fetch (retryCount + 1) (waitTime * 2) (waits @ [waitTime])
            else (Inl (''Error fetching embedding: '' @ statusText), waits)
          else
            (case body of
               Inl e \<Rightarrow>
                 if retryCount < maxRetries
                 then fetchEmbedding_loop fetch (retryCount + 1) (waitTime * 2) (waits @ [waitTime])
                 else (Inl e, waits)
             | Inr embedding \<Rightarrow> (Inr embedding, waits)))"
  by pat_completeness auto
termination
  by (relation "measure (\<lambda>(fetch, retryCount, waitTime, waits). maxRetries - retryCount)") auto

declare fetchEmbedding_loop.simps [simp del]

definition fetchEmbedding :: "(nat \<Rightarrow> 'v fetch_result) \<Rightarrow> (string + 'v) \<times> nat list" where
  "fetchEmbedding fetch = fetchEmbedding_loop fetch 0 500 []"

text \<open>
  Used to state the retry policy: a call fails when it rejects, when its status is not
  in the 2xx range (429 included), or when reading the body throws; \<open>failure_message\<close>
  is the message of the error that the failed call raises.
\<close>

fun call_failed :: "'v fetch_result \<Rightarrow> bool" where
  "call_failed (NetworkError e) = True"
| "call_failed (HttpResponse status statusText (Inl e)) = True"
| "call_failed (HttpResponse status statusText (Inr v)) = (\<not> response_ok status)"

fun failure_message :: "'v fetch_result \<Rightarrow> string" where
  "failure_message (NetworkError e) = e"
| "failure_message (HttpResponse status statusText body) =
     (if \<not> response_ok status then ''Error fetching embedding: '' @ statusText
      else (case body of Inl e \<Rightarrow> e | Inr v \<Rightarrow> []))"

fun rate_limited :: "'v fetch_result \<Rightarrow> bool" where
  "rate_limited (NetworkError e) = False"
| "rate_limited (HttpResponse status statusText body) = (status = 429)"

subsection \<open>The index and the POST handler\<close>

record SourceFile =
  filePath :: string
  content :: string

record 'v CodeIndexRecord = SourceFile +
  embedding :: 'v

text \<open>An entry of the query's result: \<^verbatim>\<open>{ ...file, score }\<close>.\<close>

record ('v, 's) ScoredFile = "'v CodeIndexRecord" +
  score :: 's

definition with_score :: "'v CodeIndexRecord \<Rightarrow> 's \<Rightarrow> ('v, 's) ScoredFile" where
  "with_score file sc =
     \<lparr>filePath = filePath file, content = content file, embedding = embedding file, score = sc\<rparr>"

text \<open>
  The body of a request after \<^verbatim>\<open>await request.json()\<close>: \<open>files\<close> is \<open>None\<close> when
  \<^verbatim>\<open>Array.isArray(files)\<close> is false, \<open>query\<close> is \<open>None\<close> when
  \<^verbatim>\<open>typeof query !== 'string'\<close>.
\<close>

record request =
  action :: string
  files :: "SourceFile list option"
  query :: "string option"

datatype ('v, 's) response =
    ErrorResponse nat string
  | IndexBuilt string nat
  | QueryResults "('v, 's) ScoredFile list"

text \<open>
  \<^verbatim>\<open>Promise.all(files.map(async file => ...))\<close> with \<^verbatim>\<open>getEmbedding\<close> as a parameter
  (\<open>Inl\<close> the message of the error it throws). The records come in the order of the
  files; when an embedding fails the whole call fails. With several failures the first
  in time decides the message; the model takes the first in the list.
\<close>

fun embed_files ::
  "(string \<Rightarrow> string + 'v) \<Rightarrow> SourceFile list \<Rightarrow> string + 'v CodeIndexRecord list" where
  "embed_files getEmbedding [] = Inr []"
| "embed_files getEmbedding (file # rest) =
     (case getEmbedding (content file) of
        Inl e \<Rightarrow> Inl e
      | Inr v \<Rightarrow>
          (case embed_files getEmbedding rest of
             Inl e \<Rightarrow> Inl e
           | Inr records \<Rightarrow>
               Inr (\<lparr>filePath = filePath file, content = content file, embedding = v\<rparr> # records)))"

text \<open>
  \<^verbatim>\<open>Array.prototype.sort(compareFn)\<close> is stable (ECMAScript 2019). It is modelled as a
  stable insertion sort; \<open>after a b\<close> stands for \<^verbatim>\<open>compareFn(a, b) > 0\<close>, the only case in
  which \<open>a\<close> is moved behind \<open>b\<close>.
\<close>

fun insert_stable :: "('a \<Rightarrow> 'a \<Rightarrow> bool) \<Rightarrow> 'a \<Rightarrow> 'a list \<Rightarrow> 'a list" where
  "insert_stable after x [] = [x]"
| "insert_stable after x (y # ys) =
     (if after x y then y # insert_stable after x ys else x # y # ys)"

definition array_sort :: "('a \<Rightarrow> 'a \<Rightarrow> bool) \<Rightarrow> 'a list \<Rightarrow> 'a list" where
  "array_sort after xs = foldr (insert_stable after) xs []"

text \<open>
  A JavaScript number, as far as the order of the scores needs it: NaN, or a number of
  a linear order (the infinities are numbers of it). \<^verbatim>\<open>cosineSimilarity\<close> returns NaN
  when the vectors differ in length or a sum overflows.
\<close>

datatype 's js_number = NaN | Num 's

text \<open>
  \<^verbatim>\<open>(a, b) => b.score - a.score\<close>: the difference is NaN when a score is NaN (or when
  both are the same infinity), and the sort reads NaN as 0. So the result is positive
  exactly when both scores are numbers and \<open>a\<close> scores less than \<open>b\<close>. With a NaN
  score the comparator is not consistent and ECMAScript leaves the order to the
  implementation; the model then gives what the stable insertion sort gives.
\<close>

definition by_score_desc ::
  "('v, 's::linorder js_number) ScoredFile \<Rightarrow> ('v, 's js_number) ScoredFile \<Rightarrow> bool" where
  "by_score_desc a b =
     (case score a of
        NaN \<Rightarrow> False
      | Num x \<Rightarrow> (case score b of NaN \<Rightarrow> False | Num y \<Rightarrow> x < y))"


definition quote :: string where
  "quote = [CHR 0x27]"

text \<open>
  The handler, as a function from the global \<^verbatim>\<open>codeIndex\<close> and the request to the
  response and the new \<^verbatim>\<open>codeIndex\<close>. \<^verbatim>\<open>getEmbedding\<close> and \<^verbatim>\<open>cosineSimilarity\<close> are
  parameters. An exception anywhere in the handler is caught and answered with status 500.
\<close>

definition POST ::
  "(string \<Rightarrow> string + 'v) \<Rightarrow> ('v \<Rightarrow> 'v \<Rightarrow> 's::linorder js_number) \<Rightarrow> 'v CodeIndexRecord list \<Rightarrow> request
     \<Rightarrow> ('v, 's js_number) response \<times> 'v CodeIndexRecord list" where
  "POST getEmbedding cosineSimilarity codeIndex req =
     (if action req = ''index'' then
        (case files req of
           None \<Rightarrow> (ErrorResponse 400 ''Files array is required for indexing.'', codeIndex)
         | Some fs \<Rightarrow>
             (case embed_files getEmbedding fs of
                Inl e \<Rightarrow> (ErrorResponse 500 e, codeIndex)
              | Inr records \<Rightarrow>
                  (IndexBuilt ''Embedding index built successfully.'' (length records), records)))
      else if action req = ''query'' then
        (case query req of
           None \<Rightarrow> (ErrorResponse 400 ''A query string is required for searching.'', codeIndex)
         | Some q \<Rightarrow>
             if length codeIndex = 0
             then (ErrorResponse 400
                     ''Embedding index not built yet. Please index the files first.'', codeIndex)
             else
               (case getEmbedding q of
                  Inl e \<Rightarrow> (ErrorResponse 500 e, codeIndex)
                | Inr queryEmbedding \<Rightarrow>
                    (QueryResults
                       (take 3 (array_sort by_score_desc
                          (map (\<lambda>file. with_score file
                                  (cosineSimilarity queryEmbedding (embedding file)))
                             codeIndex))),
                     codeIndex)))
      else
        (ErrorResponse 400
           (''Invalid action. Use '' @ quote @ ''index'' @ quote @ '' or '' @ quote @ ''query''
              @ quote @ ''.''),
         codeIndex))"

text \<open>The error of a query on an index that holds no record.\<close>

definition NotIndexed :: "('v, 's) response" where
  "NotIndexed = ErrorResponse 400 ''Embedding index not built yet. Please index the files first.''"

text \<open>
  A session of the route: the requests are handled one after the other, starting from
  the empty \<^verbatim>\<open>codeIndex\<close> of the module; the result is the list of the responses and the
  \<^verbatim>\<open>codeIndex\<close> at the end.
\<close>

fun serve ::
  "(string \<Rightarrow> string + 'v) \<Rightarrow> ('v \<Rightarrow> 'v \<Rightarrow> 's::linorder js_number) \<Rightarrow> 'v CodeIndexRecord list \<Rightarrow> request list
     \<Rightarrow> ('v, 's js_number) response list \<times> 'v CodeIndexRecord list" where
  "serve getEmbedding cosineSimilarity codeIndex [] = ([], codeIndex)"
| "serve getEmbedding cosineSimilarity codeIndex (req # reqs) =
     (case POST getEmbedding cosineSimilarity codeIndex req of
        (resp, codeIndex') \<Rightarrow>
          (case serve getEmbedding cosineSimilarity codeIndex' reqs of
             (resps, final) \<Rightarrow> (resp # resps, final)))"

fun is_IndexBuilt :: "('v, 's) response \<Rightarrow> bool" where
  "is_IndexBuilt (IndexBuilt m n) = True"
| "is_IndexBuilt r = False"


section \<open>The code-fix route: the sandbox and the repair loop\<close>

text \<open>Source: \<^verbatim>\<open>src/app/api/code-fix/route.ts\<close>.\<close>

subsection \<open>Strings\<close>

definition nl :: string where
  "nl = [CHR 0x0A]"

definition dquote :: string where
  "dquote = [CHR 0x22]"

text \<open>The decimal digits of a number, as a template literal prints it.\<close>

fun show_nat :: "nat \<Rightarrow> string" where
  "show_nat n =
     (if n < 10 then [char_of (48 + n)] else show_nat (n div 10) @ [char_of (48 + n mod 10)])"

declare show_nat.simps [simp del]

text \<open>\<^verbatim>\<open>s.split("\n")\<close>\<close>

fun split_lines :: "string \<Rightarrow> string list" where
  "split_lines [] = [[]]"
| "split_lines (c # cs) =
     (let r = split_lines cs
      in if c = CHR 0x0A then [] # r else (c # hd r) # tl r)"

text \<open>\<^verbatim>\<open>xs.join(sep)\<close>\<close>

fun join :: "string \<Rightarrow> string list \<Rightarrow> string" where
  "join sep [] = []"
| "join sep [x] = x"
| "join sep (x # y # ys) = x @ sep @ join sep (y # ys)"

text \<open>\<^verbatim>\<open>s.includes(pat)\<close>\<close>

fun string_includes :: "string \<Rightarrow> string \<Rightarrow> bool" where
  "string_includes [] pat = (pat = [])"
| "string_includes (c # cs) pat = (take (length pat) (c # cs) = pat \<or> string_includes cs pat)"

text \<open>
  \<^verbatim>\<open>s.trim()\<close> removes the white space and the line terminators of ECMAScript from
  both ends. A string is the list of the bytes of its UTF-8 encoding, so a white space
  character is one byte (U+0009 to U+000D, U+0020), two bytes (U+00A0) or three bytes
  (U+1680, U+2000 to U+200A, U+2028, U+2029, U+202F, U+205F, U+3000, U+FEFF).
\<close>

definition is_space :: "char \<Rightarrow> bool" where
  "is_space c = (c \<in> {CHR 0x20, CHR 0x09, CHR 0x0A, CHR 0x0B, CHR 0x0C, CHR 0x0D})"

definition is_space2 :: "char \<Rightarrow> char \<Rightarrow> bool" where
  "is_space2 a b = (a = CHR 0xC2 \<and> b = CHR 0xA0)"

definition is_space3 :: "char \<Rightarrow> char \<Rightarrow> char \<Rightarrow> bool" where
  "is_space3 a b c =
     ((a = CHR 0xE1 \<and> b = CHR 0x9A \<and> c = CHR 0x80)
      \<or> (a = CHR 0xE2 \<and> b = CHR 0x80
          \<and> c \<in> {CHR 0x80, CHR 0x81, CHR 0x82, CHR 0x83, CHR 0x84, CHR 0x85, CHR 0x86,
                  CHR 0x87, CHR 0x88, CHR 0x89, CHR 0x8A, CHR 0xA8, CHR 0xA9, CHR 0xAF})
      \<or> (a = CHR 0xE2 \<and> b = CHR 0x81 \<and> c = CHR 0x9F)
      \<or> (a = CHR 0xE3 \<and> b = CHR 0x80 \<and> c = CHR 0x80)
      \<or> (a = CHR 0xEF \<and> b = CHR 0xBB \<and> c = CHR 0xBF))"

text \<open>
  The white space at the start of a string is dropped; \<open>forward\<close> says whether the
  bytes are read in their order or, for the end of the string, in the reverse order.
\<close>

fun drop_space :: "bool \<Rightarrow> string \<Rightarrow> string" where
  "drop_space forward (a # b # c # rest) =
     (if is_space a then drop_space forward (b # c # rest)
      else if (if forward then is_space2 a b else is_space2 b a) then drop_space forward (c # rest)
      else if (if forward then is_space3 a b c else is_space3 c b a) then drop_space forward rest
      else a # b # c # rest)"
| "drop_space forward [a, b] =
     (if is_space a then drop_space forward [b]
      else if (if forward then is_space2 a b else is_space2 b a) then []
      else [a, b])"
| "drop_space forward [a] = (if is_space a then [] else [a])"
| "drop_space forward [] = []"

definition trim :: "string \<Rightarrow> string" where
  "trim s = rev (drop_space False (rev (drop_space True s)))"

text \<open>
  \<^verbatim>\<open>output.match(/ModuleNotFoundError: No module named ['"]([^'"]+)['"]/)\<close>: the first
  group of the leftmost match, or \<open>None\<close> when nothing matches. At a given start the
  group is the longest run of characters that are not quotes; it must be non-empty and
  followed by a quote.
\<close>

definition is_quote :: "char \<Rightarrow> bool" where
  "is_quote c = (c = CHR 0x27 \<or> c = CHR 0x22)"

definition dep_marker :: string where
  "dep_marker = ''ModuleNotFoundError: No module named ''"

definition match_here :: "string \<Rightarrow> string option" where
  "match_here s =
     (if take (length dep_marker) s = dep_marker then
        (case drop (length dep_marker) s of
           [] \<Rightarrow> None
         | q # rest \<Rightarrow>
             if is_quote q \<and> takeWhile (\<lambda>c. \<not> is_quote c) rest \<noteq> []
                \<and> dropWhile (\<lambda>c. \<not> is_quote c) rest \<noteq> []
             then Some (takeWhile (\<lambda>c. \<not> is_quote c) rest)
             else None)
      else None)"

fun missingDepMatch :: "string \<Rightarrow> string option" where
  "missingDepMatch [] = None"
| "missingDepMatch (c # cs) =
     (case match_here (c # cs) of
        Some d \<Rightarrow> Some d
      | None \<Rightarrow> missingDepMatch cs)"

subsection \<open>The outside world\<close>

text \<open>\<^verbatim>\<open>{ success, output }\<close>\<close>

record exec_result =
  success :: bool
  "output" :: string

text \<open>
  What \<^verbatim>\<open>execAsync\<close> does: it resolves with \<open>stdout\<close> and \<open>stderr\<close>, or it rejects
  (non-zero exit, timeout) with an error of which the code reads \<open>stderr\<close> and
  \<open>message\<close>.
\<close>

datatype exec_outcome =
    Resolved string string
  | Rejected string string

text \<open>
  \<^verbatim>\<open>fs.unlink(filePath).catch(() => {})\<close> is not awaited. When \<^verbatim>\<open>runPythonCode\<close>
  returns, the removal has been done, is still to be done, or has failed (the failure
  is swallowed).
\<close>

datatype unlink_outcome = Removed | NotYetRemoved | RemovalFailed

datatype msg_content =
    Text string
  | JsonError string
  | JsonResult exec_result

text \<open>
  A message of \<^verbatim>\<open>chatMessages\<close>. \<open>JsonError e\<close> stands for
  \<^verbatim>\<open>JSON.stringify({ error: e })\<close> and \<open>JsonResult r\<close> for \<^verbatim>\<open>JSON.stringify(r)\<close>;
  \<open>tool_call_id\<close> is \<open>None\<close> where the object has no such field.
\<close>

record message =
  role :: string
  msg_content :: msg_content
  tool_call_id :: "string option"

text \<open>\<^verbatim>\<open>message.tool_calls[0]\<close>: its \<open>id\<close>, \<open>function.name\<close> and \<open>function.arguments\<close>.\<close>

record tool_call =
  tc_id :: string
  tc_name :: string
  tc_arguments :: string

text \<open>
  What one call of \<^verbatim>\<open>openai.chat.completions.create\<close> does: it throws, it answers with
  no tool call, or it answers with a first tool call.
\<close>

datatype llm_outcome =
    ApiError string
  | NoToolCall
  | ToolCall tool_call

text \<open>
  What becomes of the arguments of a tool call. \<open>Unparsable\<close>: \<^verbatim>\<open>JSON.parse\<close> throws.
  \<open>Throws e\<close>: \<^verbatim>\<open>JSON.parse\<close> returns a value that the handler cannot use, and the
  handler throws the error of message \<open>e\<close>: for \<^verbatim>\<open>download_dependency\<close> the value
  \<^verbatim>\<open>null\<close>, of which \<^verbatim>\<open>params.dependency\<close> cannot be read; for \<^verbatim>\<open>run_python_code\<close> a
  value on which \<^verbatim>\<open>runPythonCode(params)\<close> throws before its \<^verbatim>\<open>try\<close> (\<^verbatim>\<open>null\<close>, or
  \<^verbatim>\<open>testCases\<close> that is not an array of strings). \<open>Parsed\<close>: any other value, as the
  handler reads it: the text that the template prints for \<^verbatim>\<open>params.dependency\<close>, or the
  text printed for \<^verbatim>\<open>params.code\<close> with the array \<^verbatim>\<open>params.testCases\<close>.
\<close>

datatype 'a parsed = Unparsable | Throws string | Parsed 'a

text \<open>
  The collaborators of one repair session. The number given to \<open>llm\<close>, \<open>date_now\<close>,
  \<open>writeFile\<close>, \<open>execAsync\<close> and \<open>unlink\<close> is the number of the pass of the loop,
  counted from 0, so that the same call can be answered differently in different passes.
  \<open>parse_dependency\<close> and \<open>parse_run\<close> say what becomes of the arguments of a call
  to the one and the other tool. \<open>path_join\<close> is \<^verbatim>\<open>path.join\<close>. \<open>writeFile\<close> returns
  the message of the error it throws, if any.
\<close>

record world =
  llm :: "nat \<Rightarrow> message list \<Rightarrow> llm_outcome"
  parse_dependency :: "string \<Rightarrow> string parsed"
  parse_run :: "string \<Rightarrow> (string \<times> string list) parsed"
  tmpdir :: string
  path_join :: "string \<Rightarrow> string \<Rightarrow> string"
  date_now :: "nat \<Rightarrow> nat"
  writeFile :: "nat \<Rightarrow> string \<Rightarrow> string \<Rightarrow> string option"
  execAsync :: "nat \<Rightarrow> string \<Rightarrow> nat \<Rightarrow> exec_outcome"
  unlink :: "nat \<Rightarrow> string \<Rightarrow> unlink_outcome"

text \<open>\<^verbatim>\<open>error.stderr || error.message\<close>\<close>

definition stderr_or_message :: "string \<Rightarrow> string \<Rightarrow> string" where
  "stderr_or_message err_stderr err_message = (if err_stderr \<noteq> [] then err_stderr else err_message)"

subsection \<open>runPythonCode and downloadDependency\<close>

definition fileContent :: "string \<Rightarrow> string list \<Rightarrow> string" where
  "fileContent code testCases =
     nl @ code @ nl @ nl
     @ ''if __name__ == '' @ dquote @ ''__main__'' @ dquote @ '':'' @ nl
     @ ''    import sys'' @ nl
     @ ''    try:'' @ nl
     @ join nl (map (\<lambda>tc. join nl (map (\<lambda>line. ''        '' @ line) (split_lines tc))) testCases) @ nl
     @ ''    except Exception as e:'' @ nl
     @ ''        print('' @ dquote @ ''TEST_FAILED'' @ dquote @ '', e)'' @ nl
     @ ''        sys.exit(1)'' @ nl
     @ ''    else:'' @ nl
     @ ''        print('' @ dquote @ ''TEST_PASSED'' @ dquote @ '')'' @ nl
     @ ''  ''"

text \<open>\<^verbatim>\<open>path.join(os.tmpdir(), `fix_${Date.now()}.py`)\<close>\<close>

definition tmpFilePath :: "world \<Rightarrow> nat \<Rightarrow> string" where
  "tmpFilePath w k = path_join w (tmpdir w) (''fix_'' @ show_nat (date_now w k) @ ''.py'')"

text \<open>The \<^verbatim>\<open>try\<close> and \<^verbatim>\<open>catch\<close> blocks of \<^verbatim>\<open>runPythonCode\<close>: the result and the files.\<close>

definition run_file ::
  "world \<Rightarrow> nat \<Rightarrow> (string \<rightharpoonup> string) \<Rightarrow> string \<Rightarrow> string list
     \<Rightarrow> exec_result \<times> (string \<rightharpoonup> string)" where
  "run_file w k fs code testCases =
     (case writeFile w k (tmpFilePath w k) (fileContent code testCases) of
        Some err_message \<Rightarrow> (\<lparr>success = False, output = stderr_or_message [] err_message\<rparr>, fs)
      | None \<Rightarrow>
          (case execAsync w k (''python '' @ tmpFilePath w k) 10000 of
             Resolved stdout stderr \<Rightarrow>
               if string_includes stdout ''TEST_PASSED''
               then (\<lparr>success = True, output = stdout\<rparr>,
                     fs(tmpFilePath w k \<mapsto> fileContent code testCases))
               else (\<lparr>success = False, output = (if stdout \<noteq> [] then stdout else stderr)\<rparr>,
                     fs(tmpFilePath w k \<mapsto> fileContent code testCases))
           | Rejected err_stderr err_message \<Rightarrow>
               (\<lparr>success = False, output = stderr_or_message err_stderr err_message\<rparr>,
                fs(tmpFilePath w k \<mapsto> fileContent code testCases))))"

text \<open>
  \<^verbatim>\<open>runPythonCode\<close>: the \<^verbatim>\<open>finally\<close> block starts the removal of the file on every
  path; the second component is the file system (a map from paths to contents) as it is
  when the call returns.
\<close>

definition runPythonCode ::
  "world \<Rightarrow> nat \<Rightarrow> (string \<rightharpoonup> string) \<Rightarrow> string \<Rightarrow> string list
     \<Rightarrow> exec_result \<times> (string \<rightharpoonup> string)" where
  "runPythonCode w k fs code testCases =
     (case run_file w k fs code testCases of
        (result, fs') \<Rightarrow>
          (case unlink w k (tmpFilePath w k) of
             Removed \<Rightarrow> (result, fs'(tmpFilePath w k := None))
           | NotYetRemoved \<Rightarrow> (result, fs')
           | RemovalFailed \<Rightarrow> (result, fs')))"

definition downloadDependency :: "world \<Rightarrow> nat \<Rightarrow> string \<Rightarrow> exec_result" where
  "downloadDependency w k dependency =
     (case execAsync w k (''python -m pip install '' @ dependency) 30000 of
        Resolved stdout stderr \<Rightarrow>
          if stderr \<noteq> [] \<and> trim stderr \<noteq> []
          then \<lparr>success = False, output = stderr\<rparr>
          else \<lparr>success = True, output = stdout\<rparr>
      | Rejected err_stderr err_message \<Rightarrow>
          \<lparr>success = False, output = stderr_or_message err_stderr err_message\<rparr>)"

subsection \<open>streamFixProcess\<close>

text \<open>
  What the generator does to the outside, in order: the texts it yields and the calls it
  makes to the reasoning service and to the sandbox.
\<close>

datatype event =
    Yield string
  | LlmCall "message list"
  | RunPython string "string list"
  | Download string

text \<open>
  The variables of \<^verbatim>\<open>streamFixProcess\<close>, the events so far and the file system.
  \<^verbatim>\<open>null\<close> is \<open>None\<close>.
\<close>

record fix_state =
  attempt :: nat
  successfulCode :: "string option"
  successfulTestCases :: "string list option"
  chatMessages :: "message list"
  events :: "event list"
  fs :: "string \<rightharpoonup> string"

definition maxAttempts :: nat where
  "maxAttempts = 5"

definition emit :: "event \<Rightarrow> fix_state \<Rightarrow> fix_state" where
  "emit e s = s\<lparr>events := events s @ [e]\<rparr>"

definition push :: "message \<Rightarrow> fix_state \<Rightarrow> fix_state" where
  "push m s = s\<lparr>chatMessages := chatMessages s @ [m]\<rparr>"

definition increment :: "fix_state \<Rightarrow> fix_state" where
  "increment s = s\<lparr>attempt := attempt s + 1\<rparr>"

definition user_message :: "string \<Rightarrow> message" where
  "user_message text = \<lparr>role = ''user'', msg_content = Text text, tool_call_id = None\<rparr>"

definition tool_message :: "msg_content \<Rightarrow> string \<Rightarrow> message" where
  "tool_message c toolCallId = \<lparr>role = ''tool'', msg_content = c, tool_call_id = Some toolCallId\<rparr>"

text \<open>\<^verbatim>\<open>if (toolCallId) { chatMessages.push({ role: "tool", ... }) }\<close>\<close>

definition push_tool :: "string \<Rightarrow> msg_content \<Rightarrow> fix_state \<Rightarrow> fix_state" where
  "push_tool toolCallId c s = (if toolCallId \<noteq> [] then push (tool_message c toolCallId) s else s)"

text \<open>\<^verbatim>\<open>!successfulCode\<close> is false only for a non-empty string.\<close>

definition truthy :: "string option \<Rightarrow> bool" where
  "truthy c = (case c of None \<Rightarrow> False | Some str \<Rightarrow> str \<noteq> [])"

datatype control = Break | Next

text \<open>
  What the \<^verbatim>\<open>catch\<close> of the body of the loop does with an error thrown in the
  \<^verbatim>\<open>try\<close>: it yields the message and counts an attempt. Nothing is pushed.
\<close>

definition caught :: "string \<Rightarrow> fix_state \<Rightarrow> control \<times> fix_state" where
  "caught err_message s =
     (Next, increment (emit (Yield (''Error during generation: '' @ err_message @ nl @ nl)) s))"

text \<open>
  The branch of the tool call \<^verbatim>\<open>download_dependency\<close>. When the arguments parse to
  \<^verbatim>\<open>null\<close> the template of the first \<^verbatim>\<open>yield\<close> throws, before any push.
\<close>

definition handle_download :: "world \<Rightarrow> nat \<Rightarrow> tool_call \<Rightarrow> fix_state \<Rightarrow> control \<times> fix_state" where
  "handle_download w k toolCall s =
     (case parse_dependency w (tc_arguments toolCall) of
        Unparsable \<Rightarrow>
          (Next,
           push (user_message
                   ''Function call arguments for download_dependency could not be parsed. Please ensure proper JSON formatting.'')
             (increment
               (emit (Yield (''Error parsing download_dependency function call arguments. Please retry.'' @ nl @ nl))
                 (push_tool (tc_id toolCall)
                    (JsonError ''Error parsing function arguments for download_dependency'') s))))
      | Throws err_message \<Rightarrow> caught err_message s
      | Parsed dependency \<Rightarrow>
          (let s1 = emit (Download dependency)
                      (emit (Yield (''Downloading dependency '' @ dependency @ ''...'' @ nl @ nl)) s);
               depResult = downloadDependency w k dependency;
               s2 = push_tool (tc_id toolCall) (JsonResult depResult) s1
           in if success depResult
              then (Next,
                    push (user_message (''Successfully installed dependency '' @ dependency
                            @ ''. Please regenerate the code fix if necessary.''))
                      (emit (Yield (''Dependency '' @ dependency @ '' installed successfully.'' @ nl @ nl)) s2))
              else (Next,
                    increment
                      (push (user_message (''Failed to install dependency '' @ dependency @ '': ''
                               @ output depResult @ ''. Please correct the installation and try again.''))
                         (emit (Yield (''Failed to install dependency '' @ dependency @ '': ''
                                  @ output depResult @ nl @ nl)) s2)))))"

text \<open>
  The part of the branch \<^verbatim>\<open>run_python_code\<close> that follows a failed run whose output
  names a missing module.
\<close>

definition auto_install :: "world \<Rightarrow> nat \<Rightarrow> string \<Rightarrow> fix_state \<Rightarrow> control \<times> fix_state" where
  "auto_install w k missingDependency s =
     (let s1 = emit (Download missingDependency)
                 (emit (Yield (''Missing dependency detected: '' @ missingDependency
                          @ ''. Attempting to install...'' @ nl @ nl)) s);
          depResult = downloadDependency w k missingDependency;
          s2 = emit (Yield (''Dependency installation output: '' @ output depResult @ nl @ nl)) s1
      in if success depResult
         then (Next,
               push (user_message (''Dependency '' @ missingDependency
                       @ '' installed successfully. Please retry generating the code fix.'')) s2)
         else (Next,
               increment
                 (push (user_message (''Failed to install dependency '' @ missingDependency @ '': ''
                          @ output depResult @ ''. Please check the installation.'')) s2)))"

text \<open>
  The branch of the tool call \<^verbatim>\<open>run_python_code\<close>. When \<^verbatim>\<open>runPythonCode(params)\<close>
  throws before its \<^verbatim>\<open>try\<close>, the text before the call has been yielded, no file has
  been written and nothing is pushed.
\<close>

definition handle_run ::
  "world \<Rightarrow> nat \<Rightarrow> string \<Rightarrow> tool_call \<Rightarrow> fix_state \<Rightarrow> control \<times> fix_state" where
  "handle_run w k prompt toolCall s =
     (case parse_run w (tc_arguments toolCall) of
        Unparsable \<Rightarrow>
          (Next,
           push (user_message
                   ''Function call arguments for run_python_code could not be parsed. Please ensure proper JSON formatting.'')
             (increment
               (emit (Yield (''Error parsing function call arguments for run_python_code. Please retry.'' @ nl @ nl))
                 (push_tool (tc_id toolCall)
                    (JsonError ''Error parsing function arguments for run_python_code'') s))))
      | Throws err_message \<Rightarrow>
          caught err_message
            (emit (Yield (''Generated code fix. Running test cases...'' @ nl @ nl)) s)
      | Parsed (code, testCases) \<Rightarrow>
          (let s1 = emit (RunPython code testCases)
                      (emit (Yield (''Generated code fix. Running test cases...'' @ nl @ nl)) s);
               result = fst (runPythonCode w k (fs s1) code testCases);
               s2 = push_tool (tc_id toolCall) (JsonResult result)
                      (s1\<lparr>fs := snd (runPythonCode w k (fs s1) code testCases)\<rparr>)
           in if success result
              then (Break,
                    emit (Yield (''Test cases passed! Fix successful on attempt ''
                            @ show_nat (attempt s2 + 1) @ ''.'' @ nl @ nl))
                      (s2\<lparr>successfulCode := Some code, successfulTestCases := Some testCases\<rparr>))
              else
                (case missingDepMatch (output result) of
                   Some missingDependency \<Rightarrow> auto_install w k missingDependency s2
                 | None \<Rightarrow>
                     (Next,
                      increment
                        (push (user_message (''The tests failed with the error: '' @ output result
                                 @ ''. The code: '' @ code @ ''. The original issue: '' @ prompt
                                 @ ''. Please improve the code fix accordingly.''))
                           (emit (Yield (''Test cases failed on attempt '' @ show_nat (attempt s2 + 1)
                                    @ '': '' @ output result @ nl @ nl)) s2))))))"

text \<open>
  One pass of the body of the \<^verbatim>\<open>while\<close> loop, the \<open>k\<close>-th of the session. \<open>Break\<close>
  is the \<^verbatim>\<open>break\<close> after a passed run; \<^verbatim>\<open>continue\<close> and the end of the body are
  \<open>Next\<close>. An exception of the call to the reasoning service, like one thrown in
  a branch, is caught by the \<^verbatim>\<open>catch\<close> of the body.
\<close>

definition conversation :: "fix_state \<Rightarrow> message list" where
  "conversation s = filter (\<lambda>msg. role msg \<noteq> ''tool'') (chatMessages s)"

definition iteration :: "world \<Rightarrow> nat \<Rightarrow> string \<Rightarrow> fix_state \<Rightarrow> control \<times> fix_state" where
  "iteration w k prompt s =
     (let s1 = emit (LlmCall (conversation s))
                 (emit (Yield (''Attempt '' @ show_nat (attempt s + 1)
                          @ '': Generating Python code fix and test cases...'' @ nl @ nl)) s)
      in case llm w k (conversation s) of
           ApiError err_message \<Rightarrow> caught err_message s1
         | NoToolCall \<Rightarrow>
             (Next, increment (emit (Yield (''No function call received. Retrying...'' @ nl @ nl)) s1))
         | ToolCall toolCall \<Rightarrow>
             if tc_name toolCall = ''download_dependency'' then handle_download w k toolCall s1
             else if tc_name toolCall = ''run_python_code'' then handle_run w k prompt toolCall s1
             else (Next, increment (emit (Yield (''Unknown tool call received. Retrying...'' @ nl @ nl)) s1)))"

text \<open>\<^verbatim>\<open>attempt < maxAttempts && !successfulCode\<close>\<close>

definition loop_condition :: "fix_state \<Rightarrow> bool" where
  "loop_condition s = (attempt s < maxAttempts \<and> \<not> truthy (successfulCode s))"

text \<open>
  The \<^verbatim>\<open>while\<close> loop. A successful installation leaves \<open>attempt\<close> as it is, so the loop
  need not end; the first number is fuel, the greatest number of passes allowed, and the
  result is \<open>None\<close> when the fuel does not suffice. The second number counts the passes
  made.
\<close>

fun fix_loop :: "world \<Rightarrow> string \<Rightarrow> nat \<Rightarrow> nat \<Rightarrow> fix_state \<Rightarrow> fix_state option" where
  "fix_loop w prompt 0 k s = (if loop_condition s then None else Some s)"
| "fix_loop w prompt (Suc fuel) k s =
     (if loop_condition s
      then (case iteration w k prompt s of
              (Break, s') \<Rightarrow> Some s'
            | (Next, s') \<Rightarrow> fix_loop w prompt fuel (Suc k) s')
      else Some s)"

text \<open>The states at the head of the loop during the first \<open>fuel\<close> passes, and after them.\<close>

fun loop_states :: "world \<Rightarrow> string \<Rightarrow> nat \<Rightarrow> nat \<Rightarrow> fix_state \<Rightarrow> fix_state list" where
  "loop_states w prompt 0 k s = [s]"
| "loop_states w prompt (Suc fuel) k s =
     s # (if loop_condition s
          then (case iteration w k prompt s of
                  (Break, s') \<Rightarrow> [s']
                | (Next, s') \<Rightarrow> loop_states w prompt fuel (Suc k) s')
          else [])"

text \<open>The statement after the loop.\<close>

definition finish :: "fix_state \<Rightarrow> fix_state" where
  "finish s =
     (if \<not> truthy (successfulCode s)
      then emit (Yield (''Failed to generate a working fix after '' @ show_nat maxAttempts
                   @ '' attempts.'' @ nl @ nl)) s
      else emit (Yield (''Final working fix:'' @ nl @ nl @ ''Code Fix:'' @ nl
                   @ the (successfulCode s) @ nl @ nl @ ''Test Cases:'' @ nl
                   @ (case successfulTestCases s of None \<Rightarrow> ''undefined''
                      | Some tcs \<Rightarrow> join nl tcs) @ nl @ nl)) s)"

definition initial_state :: "string \<Rightarrow> (string \<rightharpoonup> string) \<Rightarrow> fix_state" where
  "initial_state prompt files0 =
     \<lparr>attempt = 0, successfulCode = None, successfulTestCases = None,
      chatMessages = [user_message prompt], events = [], fs = files0\<rparr>"

definition streamFixProcess ::
  "world \<Rightarrow> string \<Rightarrow> (string \<rightharpoonup> string) \<Rightarrow> nat \<Rightarrow> fix_state option" where
  "streamFixProcess w prompt files0 fuel =
     map_option finish (fix_loop w prompt fuel 0 (initial_state prompt files0))"

text \<open>
  The outcome that the last text reports: the exhaustion message, or the final fix.
\<close>

datatype outcome = Success string "string list" | Failure

definition outcome_of :: "fix_state \<Rightarrow> outcome" where
  "outcome_of s =
     (if \<not> truthy (successfulCode s) then Failure
      else Success (the (successfulCode s)) (case successfulTestCases s of None \<Rightarrow> [] | Some tcs \<Rightarrow> tcs))"

definition exhaustion_message :: string where
  "exhaustion_message =
     ''Failed to generate a working fix after '' @ show_nat maxAttempts @ '' attempts.'' @ nl @ nl"

definition llm_calls :: "fix_state \<Rightarrow> nat" where
  "llm_calls s = length (filter (\<lambda>e. case e of LlmCall c \<Rightarrow> True | _ \<Rightarrow> False) (events s))"

text \<open>
  Used to state the claim on tool turns: every message of role \<open>tool\<close> comes after a
  message of role \<open>assistant\<close>. The flag says whether such a message has been seen.
\<close>

fun tool_turns_follow_request :: "bool \<Rightarrow> message list \<Rightarrow> bool" where
  "tool_turns_follow_request seen [] = True"
| "tool_turns_follow_request seen (m # ms) =
     (if role m = ''tool'' then seen \<and> tool_turns_follow_request seen ms
      else tool_turns_follow_request (seen \<or> role m = ''assistant'') ms)"

section \<open>Auxiliary definitions and concrete inputs\<close>

text \<open>A tokenizer whose tokens are the characters of the text.\<close>

definition char_encoder :: "char encoder" where
  "char_encoder = \<lparr>encode = Inr, decode = (\<lambda>toks. toks)\<rparr>"

text \<open>
  An embedding service that always answers 429, and one that fails twice and then
  answers.
\<close>

definition always_429 :: "nat \<Rightarrow> nat fetch_result" where
  "always_429 j = HttpResponse 429 ''Too Many Requests'' (Inl ''no body'')"

definition fails_twice :: "nat \<Rightarrow> nat fetch_result" where
  "fails_twice j =
     (if j = 0 then HttpResponse 500 ''Internal Server Error'' (Inl ''no body'')
      else if j = 1 then NetworkError ''socket hang up''
      else HttpResponse 200 ''OK'' (Inr 7))"

text \<open>A query request with the given text.\<close>

definition query_request :: "string \<Rightarrow> request" where
  "query_request q = \<lparr>action = ''query'', files = None, query = Some q\<rparr>"

text \<open>
  A similarity over vectors of natural numbers: NaN when the vector of the record is
  shorter than that of the query, the dot product otherwise. On the vectors of the
  examples below it gives what \<^verbatim>\<open>cosineSimilarity\<close> gives: 0 for the query \<open>[0, 0]\<close>,
  the cosine for vectors of norm 1, and NaN for the record \<open>[1]\<close> with the query
  \<open>[1, 0]\<close>. The embedding functions always return the same vector or always fail.
\<close>

definition dot_similarity :: "nat list \<Rightarrow> nat list \<Rightarrow> nat js_number" where
  "dot_similarity a b = (if length b < length a then NaN else Num (sum_list (map2 (*) a b)))"


definition embed_down :: "string \<Rightarrow> string + nat list" where
  "embed_down t = Inl ''service unavailable''"





definition failed_session :: "request list" where
  "failed_session =
     [query_request ''print'',
      \<lparr>action = ''index'', files = None, query = None\<rparr>,
      \<lparr>action = ''index'', files = Some [\<lparr>filePath = ''demo.py'', content = ''print''\<rparr>],
       query = None\<rparr>]"

text \<open>
  Used to state the scenario of five failed runs: in each of the first five passes the
  reasoning service asks for \<^verbatim>\<open>run_python_code\<close> with arguments that parse, and the run
  fails with an output that names no missing module.
\<close>

definition always_failing_tests :: "world \<Rightarrow> bool" where
  "always_failing_tests w =
     (\<forall>k<5. \<forall>conv. \<exists>tc code tests.
        llm w k conv = ToolCall tc \<and> tc_name tc = ''run_python_code''
        \<and> parse_run w (tc_arguments tc) = Parsed (code, tests)
        \<and> (\<forall>files0. \<not> success (fst (runPythonCode w k files0 code tests))
              \<and> missingDepMatch (output (fst (runPythonCode w k files0 code tests))) = None))"

text \<open>
  Worlds for the examples. The reasoning service, the runs and the installations are
  given per pass; the installation is the command run with the timeout of 30 s. The toy
  parser fails on \<open>{\<close>, gives for \<open>null\<close> a value on which the handler throws, and
  takes any other arguments themselves as the dependency or the code.
\<close>

definition scripted_world ::
  "(nat \<Rightarrow> llm_outcome) \<Rightarrow> (nat \<Rightarrow> exec_outcome) \<Rightarrow> (nat \<Rightarrow> exec_outcome) \<Rightarrow> unlink_outcome \<Rightarrow> world" where
  "scripted_world answers runs installs removal =
     \<lparr>llm = (\<lambda>k conv. answers k),
      parse_dependency =
        (\<lambda>arguments. if arguments = ''{'' then Unparsable
           else if arguments = ''null'' then Throws ''Cannot read properties of null''
           else Parsed arguments),
      parse_run =
        (\<lambda>arguments. if arguments = ''{'' then Unparsable
           else if arguments = ''null'' then Throws ''Cannot destructure property of null''
           else Parsed (arguments, [''assert fix() == 1''])),
      tmpdir = ''/tmp'',
      path_join = (\<lambda>dir name. dir @ ''/'' @ name),
      date_now = (\<lambda>k. 1700000000000 + k),
      writeFile = (\<lambda>k path text. None),
      execAsync = (\<lambda>k command timeout. if timeout = 30000 then installs k else runs k),
      unlink = (\<lambda>k path. removal)\<rparr>"

definition run_call :: "string \<Rightarrow> string \<Rightarrow> llm_outcome" where
  "run_call toolCallId code =
     ToolCall \<lparr>tc_id = toolCallId, tc_name = ''run_python_code'', tc_arguments = code\<rparr>"

definition failing_world :: world where
  "failing_world =
     scripted_world (\<lambda>k. run_call ''call_1'' ''def fix(): return 0'')
       (\<lambda>k. Rejected ''AssertionError'' ''Command failed'') (\<lambda>k. Resolved [] []) Removed"


text \<open>
  A world whose run fails with a traceback that names the missing module \<open>foo\<close>; the
  outcome of the installation is the parameter.
\<close>

definition missing_module_world :: "exec_outcome \<Rightarrow> world" where
  "missing_module_world install =
     scripted_world (\<lambda>k. run_call ''call_1'' ''import foo'')
       (\<lambda>k. Rejected (''Traceback: '' @ dep_marker @ quote @ ''foo'' @ quote) ''Command failed'')
       (\<lambda>k. install) Removed"

text \<open>
  Used to state the claim on result turns: the messages that a pass appends to
  \<^verbatim>\<open>chatMessages\<close>.
\<close>

definition appended :: "fix_state \<Rightarrow> fix_state \<Rightarrow> message list" where
  "appended s s' = drop (length (chatMessages s)) (chatMessages s')"

text \<open>
  Used to state the claim on result turns: the arguments of the tool call parse, and the
  handler throws on the value.
\<close>

fun is_throws :: "'a parsed \<Rightarrow> bool" where
  "is_throws (Throws e) = True"
| "is_throws Unparsable = False"
| "is_throws (Parsed x) = False"

definition handler_throws :: "world \<Rightarrow> tool_call \<Rightarrow> bool" where
  "handler_throws w tc =
     (if tc_name tc = ''download_dependency'' then is_throws (parse_dependency w (tc_arguments tc))
      else if tc_name tc = ''run_python_code'' then is_throws (parse_run w (tc_arguments tc))
      else False)"

text \<open>A world whose reasoning service sends \<open>null\<close> as the arguments of the run.\<close>

definition misfit_world :: world where
  "misfit_world =
     scripted_world (\<lambda>k. run_call ''call_2'' ''null'')
       (\<lambda>k. Resolved [] []) (\<lambda>k. Resolved [] []) Removed"

text \<open>A world whose reasoning service asks for a tool that the loop does not know.\<close>

definition unknown_tool_world :: world where
  "unknown_tool_world =
     scripted_world
       (\<lambda>k. ToolCall \<lparr>tc_id = ''call_9'', tc_name = ''search_docs'', tc_arguments = ''x''\<rparr>)
       (\<lambda>k. Resolved [] []) (\<lambda>k. Resolved [] []) Removed"

text \<open>
  Used to state the claim on result turns: the id of the tool call of a reply, when the
  call names one of the two tools of the loop, its id is not empty and the handler does
  not throw on its arguments.
\<close>

definition handled_call :: "world \<Rightarrow> llm_outcome \<Rightarrow> string option" where
  "handled_call w reply =
     (case reply of
        ToolCall tc \<Rightarrow>
          if (tc_name tc = ''download_dependency'' \<or> tc_name tc = ''run_python_code'')
             \<and> tc_id tc \<noteq> [] \<and> \<not> handler_throws w tc
          then Some (tc_id tc) else None
      | _ \<Rightarrow> None)"

section \<open>Chunking\<close>

lemma windows_Nil: "windows m [] = []"
  by (subst windows.simps) simp

lemma chunk_loop_windows:
  "0 < m \<Longrightarrow> chunk_loop enc toks m i acc = Some (acc @ map (decode enc) (windows m (drop i toks)))"
proof (induction "length toks - i" arbitrary: i acc rule: less_induct)
  case less
  show ?case
  proof (cases "i < length toks")
    case True
    then have "length toks - (i + m) < length toks - i" using less.prems by simp
    from less.hyps[OF this less.prems]
    have IH: "chunk_loop enc toks m (i + m) (acc @ [decode enc (slice toks i (i + m))]) =
       Some ((acc @ [decode enc (slice toks i (i + m))]) @ map (decode enc) (windows m (drop (i + m) toks)))" .
    have w: "windows m (drop i toks) = take m (drop i toks) # windows m (drop (i + m) toks)"
      using True less.prems by (subst windows.simps) (simp add: add.commute)
    show ?thesis
      using IH by (subst chunk_loop.simps) (simp add: True w slice_def)
  next
    case False
    then show ?thesis
      by (subst chunk_loop.simps) (simp add: windows_Nil)
  qed
qed

lemma concat_windows: "0 < m \<Longrightarrow> concat (windows m xs) = xs"
proof (induction m xs rule: windows.induct)
  case (1 m xs)
  then show ?case by (subst windows.simps) auto
qed

lemma windows_lengths: "w \<in> set (windows m xs) \<Longrightarrow> 0 < length w \<and> length w \<le> m"
proof (induction m xs arbitrary: w rule: windows.induct)
  case (1 m xs)
  from "1.prems" have ne: "\<not> (m = 0 \<or> xs = [])" by (subst (asm) windows.simps) (auto split: if_splits)
  from "1.prems" ne have "w = take m xs \<or> w \<in> set (windows m (drop m xs))"
    by (subst (asm) windows.simps) auto
  then show ?case using "1.IH"[OF ne] ne by auto
qed

lemma windows_butlast_full: "w \<in> set (butlast (windows m xs)) \<Longrightarrow> length w = m"
proof (induction m xs arbitrary: w rule: windows.induct)
  case (1 m xs)
  show ?case
  proof (cases "m = 0 \<or> xs = []")
    case True
    with "1.prems" show ?thesis by (subst (asm) windows.simps) auto
  next
    case False
    have w: "windows m xs = take m xs # windows m (drop m xs)"
      using False by (subst windows.simps) simp
    show ?thesis
    proof (cases "windows m (drop m xs) = []")
      case True
      with "1.prems" w show ?thesis by simp
    next
      case ne: False
      then have "drop m xs \<noteq> []" by (subst (asm) windows.simps) (auto split: if_splits)
      then have len: "length (take m xs) = m" by simp
      from "1.prems" w ne have "w = take m xs \<or> w \<in> set (butlast (windows m (drop m xs)))" by simp
      then show ?thesis using len "1.IH"[OF False] by auto
    qed
  qed
qed

lemma windows_nth: "k < length (windows m xs) \<Longrightarrow> windows m xs ! k = slice xs (k * m) (k * m + m)"
proof (induction m xs arbitrary: k rule: windows.induct)
  case (1 m xs)
  show ?case
  proof (cases "m = 0 \<or> xs = []")
    case True
    with "1.prems" show ?thesis by (subst (asm) windows.simps) auto
  next
    case False
    have w: "windows m xs = take m xs # windows m (drop m xs)"
      using False by (subst windows.simps) simp
    show ?thesis
    proof (cases k)
      case 0
      then show ?thesis using w by (simp add: slice_def)
    next
      case (Suc j)
      with "1.prems" w have "j < length (windows m (drop m xs))" by simp
      from "1.IH"[OF False this] show ?thesis using Suc w by (simp add: slice_def add.commute)
    qed
  qed
qed

text \<open>
  Claim C8. When the text has at most \<open>maxTokens\<close> tokens, \<open>chunkText\<close> returns the
  text itself as its only segment, and so \<open>getEmbedding\<close> gets the text with the
  end-of-text sentinel removed. When it has more tokens, and \<open>maxTokens\<close> is positive,
  the segments are the decodings of the token windows: the \<open>k\<close>-th window is the slice
  of the tokens from \<open>k * maxTokens\<close>, every window but the last has exactly
  \<open>maxTokens\<close> tokens, no window is empty or longer, and the windows concatenate to
  the token sequence.
\<close>

theorem chunkText_segments:
  assumes "encode encoder text = Inr tokens"
  shows "(length tokens \<le> maxTokens \<longrightarrow> chunkText encoder text maxTokens = Some (Inr [text]))
    \<and> (maxTokens < length tokens \<and> 0 < maxTokens \<longrightarrow>
         chunkText encoder text maxTokens
           = Some (Inr (map (decode encoder) (windows maxTokens tokens)))
         \<and> concat (windows maxTokens tokens) = tokens
         \<and> (\<forall>k < length (windows maxTokens tokens).
               windows maxTokens tokens ! k = slice tokens (k * maxTokens) (k * maxTokens + maxTokens))
         \<and> (\<forall>win \<in> set (butlast (windows maxTokens tokens)). length win = maxTokens)
         \<and> (\<forall>win \<in> set (windows maxTokens tokens). 0 < length win \<and> length win \<le> maxTokens))
    \<and> (encode encoder (remove_all endoftext raw) = Inr stripped
         \<and> length stripped \<le> MAX_TOKENS_PER_CHUNK \<longrightarrow>
         getEmbedding_chunks encoder raw = Some (Inr [remove_all endoftext raw]))"
proof (intro conjI impI)
  assume "length tokens \<le> maxTokens"
  then show "chunkText encoder text maxTokens = Some (Inr [text])"
    using assms by (simp add: chunkText_def)
next
  assume a: "maxTokens < length tokens \<and> 0 < maxTokens"
  then show "chunkText encoder text maxTokens
      = Some (Inr (map (decode encoder) (windows maxTokens tokens)))"
    using assms chunk_loop_windows[of maxTokens encoder tokens 0 "[]"]
    by (simp add: chunkText_def)
  from a show "concat (windows maxTokens tokens) = tokens"
    by (simp add: concat_windows)
  show "\<forall>k < length (windows maxTokens tokens).
      windows maxTokens tokens ! k = slice tokens (k * maxTokens) (k * maxTokens + maxTokens)"
    by (simp add: windows_nth)
  show "\<forall>win \<in> set (butlast (windows maxTokens tokens)). length win = maxTokens"
    using windows_butlast_full by blast
  show "\<forall>win \<in> set (windows maxTokens tokens). 0 < length win \<and> length win \<le> maxTokens"
    using windows_lengths by blast
next
  assume "encode encoder (remove_all endoftext raw) = Inr stripped
    \<and> length stripped \<le> MAX_TOKENS_PER_CHUNK"
  then show "getEmbedding_chunks encoder raw = Some (Inr [remove_all endoftext raw])"
    by (simp add: getEmbedding_chunks_def chunkText_def)
qed

theorem chunkText_segments_witness:
  "chunkText char_encoder ''ab'' 2 = Some (Inr [''ab''])
   \<and> chunkText char_encoder ''abcde'' 2 = Some (Inr [''ab'', ''cd'', ''e''])
   \<and> concat (windows 2 ''abcde'') = ''abcde''
   \<and> getEmbedding_chunks char_encoder ''a<|endoftext|>b'' = Some (Inr [''ab''])"
proof -
  have w: "windows 2 ''abcde'' = [''ab'', ''cd'', ''e'']"
    by (simp add: windows.simps)
  have r: "remove_all endoftext ''a<|endoftext|>b'' = ''ab''"
    by (simp add: endoftext_def)
  have e: "encode char_encoder t = Inr t" for t
    by (simp add: char_encoder_def)
  have d: "decode char_encoder = (\<lambda>toks. toks)"
    by (simp add: char_encoder_def)
  note short = chunkText_segments[OF e, of "''ab''" 2 "''a<|endoftext|>b''" "''ab''"]
  note long = chunkText_segments[OF e, of "''abcde''" 2 "''a<|endoftext|>b''" "''ab''"]
  have 1: "chunkText char_encoder ''ab'' 2 = Some (Inr [''ab''])"
    using short by simp
  have 2: "chunkText char_encoder ''abcde'' 2 = Some (Inr [''ab'', ''cd'', ''e''])"
    and 3: "concat (windows 2 ''abcde'') = ''abcde''"
    using long by (simp_all add: w d)
  have "encode char_encoder (remove_all endoftext ''a<|endoftext|>b'') = Inr ''ab''
      \<and> length ''ab'' \<le> MAX_TOKENS_PER_CHUNK"
    unfolding r by (simp add: e MAX_TOKENS_PER_CHUNK_def)
  with short have "getEmbedding_chunks char_encoder ''a<|endoftext|>b''
      = Some (Inr [remove_all endoftext ''a<|endoftext|>b''])"
    by blast
  with 1 2 3 show ?thesis unfolding r by simp
qed

section \<open>The retry policy of the embedding client\<close>

lemma fetch_retry:
  "call_failed (fetch r) \<Longrightarrow> r < maxRetries \<Longrightarrow>
   fetchEmbedding_loop fetch r w ws = fetchEmbedding_loop fetch (r + 1) (w * 2) (ws @ [w])"
  by (subst fetchEmbedding_loop.simps, cases "fetch r" rule: call_failed.cases) (auto)

lemma fetch_give_up:
  "call_failed (fetch r) \<Longrightarrow> \<not> r < maxRetries \<Longrightarrow>
   fetchEmbedding_loop fetch r w ws = (Inl (failure_message (fetch r)), ws)"
  by (subst fetchEmbedding_loop.simps, cases "fetch r" rule: call_failed.cases) (auto)

lemma fetch_return:
  "fetch r = HttpResponse status statusText (Inr v) \<Longrightarrow> response_ok status \<Longrightarrow>
   fetchEmbedding_loop fetch r w ws = (Inr v, ws)"
  by (subst fetchEmbedding_loop.simps) (auto simp: response_ok_def)

lemma fetch_prefix_failed:
  assumes "k \<le> maxRetries" "\<forall>j<k. call_failed (fetch j)"
  shows "fetchEmbedding_loop fetch 0 w [] = fetchEmbedding_loop fetch k (w * 2 ^ k) (map (\<lambda>j. w * 2 ^ j) [0..<k])"
  using assms
proof (induction k)
  case 0
  then show ?case by simp
next
  case (Suc k)
  then have "fetchEmbedding_loop fetch 0 w [] = fetchEmbedding_loop fetch k (w * 2 ^ k) (map (\<lambda>j. w * 2 ^ j) [0..<k])"
    by simp
  also have "\<dots> = fetchEmbedding_loop fetch (k + 1) (w * 2 ^ k * 2) (map (\<lambda>j. w * 2 ^ j) [0..<k] @ [w * 2 ^ k])"
    using Suc.prems by (intro fetch_retry) auto
  finally show ?case by (simp add: mult_ac)
qed

lemma backoff_prefix:
  "k \<le> 5 \<Longrightarrow> map (\<lambda>j. 500 * 2 ^ j) [0..<k] = take k [500, 1000, 2000, 4000, 8000::nat]"
proof -
  assume "k \<le> 5"
  then consider "k = 0" | "k = 1" | "k = 2" | "k = 3" | "k = 4" | "k = 5" by linarith
  then show ?thesis by cases (simp_all add: upt_rec)
qed

lemma fetch_all_failed:
  assumes "\<forall>j\<le>5. call_failed (fetch j)"
  shows "fetchEmbedding fetch = (Inl (failure_message (fetch 5)), [500, 1000, 2000, 4000, 8000])"
proof -
  have "fetchEmbedding fetch =
      fetchEmbedding_loop fetch 5 (500 * 2 ^ 5) (map (\<lambda>j. 500 * 2 ^ j) [0..<5])"
    unfolding fetchEmbedding_def using assms
    by (intro fetch_prefix_failed) (simp_all add: maxRetries_def)
  also have "\<dots> = (Inl (failure_message (fetch 5)), map (\<lambda>j. 500 * 2 ^ j) [0..<5])"
    using assms by (intro fetch_give_up) (simp_all add: maxRetries_def)
  finally show ?thesis using backoff_prefix[of 5] by simp
qed

lemma fetch_first_success:
  assumes "k \<le> 5" "\<forall>j<k. call_failed (fetch j)"
    "fetch k = HttpResponse status statusText (Inr v)" "response_ok status"
  shows "fetchEmbedding fetch = (Inr v, take k [500, 1000, 2000, 4000, 8000])"
proof -
  have "fetchEmbedding fetch = fetchEmbedding_loop fetch k (500 * 2 ^ k) (map (\<lambda>j. 500 * 2 ^ j) [0..<k])"
    unfolding fetchEmbedding_def using assms(1,2) by (intro fetch_prefix_failed) (simp_all add: maxRetries_def)
  also have "\<dots> = (Inr v, map (\<lambda>j. 500 * 2 ^ j) [0..<k])"
    using assms(3,4) by (rule fetch_return)
  finally show ?thesis using backoff_prefix[OF assms(1)] by simp
qed

text \<open>
  Claim C5. When every call is rate limited, \<open>fetchEmbedding\<close> makes six calls, waits
  500, 1000, 2000, 4000 and 8000 ms between them and then throws. The same holds when the
  calls fail in any other way (a rejected call, another error status, a body that cannot
  be read): the error of the sixth call is thrown only after the five retries. When the
  \<open>k\<close>-th call is the first to succeed, its embedding is returned after the first
  \<open>k\<close> waiting times.
\<close>

theorem fetchEmbedding_retry_policy:
  "((\<forall>j\<le>5. rate_limited (fetch j)) \<longrightarrow>
      fetchEmbedding fetch = (Inl (failure_message (fetch 5)), [500, 1000, 2000, 4000, 8000]))
   \<and> ((\<forall>j\<le>5. call_failed (fetch j)) \<longrightarrow>
      fetchEmbedding fetch = (Inl (failure_message (fetch 5)), [500, 1000, 2000, 4000, 8000]))
   \<and> (k \<le> 5 \<and> (\<forall>j<k. call_failed (fetch j))
        \<and> fetch k = HttpResponse status statusText (Inr v) \<and> response_ok status \<longrightarrow>
      fetchEmbedding fetch = (Inr v, take k [500, 1000, 2000, 4000, 8000]))"
proof (intro conjI impI)
  assume r: "\<forall>j\<le>5. rate_limited (fetch j)"
  have "call_failed x" if "rate_limited x" for x :: "'a fetch_result"
    using that by (cases x rule: call_failed.cases) (simp_all add: response_ok_def)
  with r have "\<forall>j\<le>5. call_failed (fetch j)" by blast
  then show "fetchEmbedding fetch = (Inl (failure_message (fetch 5)), [500, 1000, 2000, 4000, 8000])"
    by (rule fetch_all_failed)
next
  assume "\<forall>j\<le>5. call_failed (fetch j)"
  then show "fetchEmbedding fetch = (Inl (failure_message (fetch 5)), [500, 1000, 2000, 4000, 8000])"
    by (rule fetch_all_failed)
next
  assume "k \<le> 5 \<and> (\<forall>j<k. call_failed (fetch j))
        \<and> fetch k = HttpResponse status statusText (Inr v) \<and> response_ok status"
  then show "fetchEmbedding fetch = (Inr v, take k [500, 1000, 2000, 4000, 8000])"
    by (intro fetch_first_success[of k fetch status statusText v]) simp_all
qed

theorem fetchEmbedding_retry_policy_witness:
  "fetchEmbedding always_429
     = (Inl ''Error fetching embedding: Too Many Requests'', [500, 1000, 2000, 4000, 8000])
   \<and> fetchEmbedding fails_twice = (Inr 7, [500, 1000])"
proof -
  have a: "\<forall>j\<le>5. rate_limited (always_429 j)"
    by (simp add: always_429_def)
  have m: "failure_message (always_429 5) = ''Error fetching embedding: Too Many Requests''"
    by (simp add: always_429_def response_ok_def)
  have b: "(2::nat) \<le> 5 \<and> (\<forall>j<2. call_failed (fails_twice j))
      \<and> fails_twice 2 = HttpResponse 200 ''OK'' (Inr 7) \<and> response_ok 200"
    by (simp add: fails_twice_def response_ok_def less_Suc_eq numeral_2_eq_2)
  from a m have 1: "fetchEmbedding always_429
     = (Inl ''Error fetching embedding: Too Many Requests'', [500, 1000, 2000, 4000, 8000])"
    using fetchEmbedding_retry_policy[of always_429 0 0 "[]" 0] by metis
  from b have 2: "fetchEmbedding fails_twice = (Inr 7, take 2 [500, 1000, 2000, 4000, 8000])"
    using fetchEmbedding_retry_policy[of fails_twice 2 200 "''OK''" 7] by blast
  from 1 2 show ?thesis by simp
qed

section \<open>The similarity index\<close>

lemma POST_keeps_index:
  "POST g sim idx req = (resp, idx') \<Longrightarrow> \<not> is_IndexBuilt resp \<Longrightarrow> idx' = idx"
  by (auto simp: POST_def split: if_splits option.splits sum.splits)

lemma serve_keeps_index:
  "serve g sim idx reqs = (resps, idx') \<Longrightarrow> \<forall>r\<in>set resps. \<not> is_IndexBuilt r \<Longrightarrow> idx' = idx"
proof (induction reqs arbitrary: idx resps)
  case Nil
  then show ?case by simp
next
  case (Cons req reqs)
  obtain resp idx1 where p: "POST g sim idx req = (resp, idx1)"
    by (cases "POST g sim idx req")
  obtain rest idx2 where s: "serve g sim idx1 reqs = (rest, idx2)"
    by (cases "serve g sim idx1 reqs")
  from Cons.prems(1) p s have eq: "resps = resp # rest" "idx' = idx2" by simp_all
  with Cons.prems(2) have "\<not> is_IndexBuilt resp" "\<forall>r\<in>set rest. \<not> is_IndexBuilt r" by simp_all
  with p s Cons.IH[of idx1 rest] eq show ?case using POST_keeps_index by blast
qed

lemma query_empty_index:
  "POST g sim [] \<lparr>action = ''query'', files = f, query = Some q\<rparr> = (NotIndexed, [])"
  by (simp add: POST_def NotIndexed_def)

text \<open>
  Claim C7. After any sequence of requests in which no index request has succeeded, a
  query with a query string is answered with the error that the index is not built, and
  the index stays as it is.
\<close>

theorem query_before_index_fails:
  assumes "serve getEmbedding cosineSimilarity [] reqs = (resps, codeIndex)"
    and "\<forall>r\<in>set resps. \<not> is_IndexBuilt r"
  shows "POST getEmbedding cosineSimilarity codeIndex \<lparr>action = ''query'', files = f, query = Some q\<rparr>
    = (NotIndexed, codeIndex)"
proof -
  from assms have "codeIndex = []" by (rule serve_keeps_index)
  then show ?thesis by (simp add: query_empty_index)
qed

theorem query_before_index_fails_witness:
  "serve embed_down dot_similarity [] failed_session
     = ([NotIndexed, ErrorResponse 400 ''Files array is required for indexing.'',
         ErrorResponse 500 ''service unavailable''], [])
   \<and> POST embed_down dot_similarity [] \<lparr>action = ''query'', files = None, query = Some ''print''\<rparr>
     = (NotIndexed, [])"
proof -
  have s: "serve embed_down dot_similarity [] failed_session
     = ([NotIndexed, ErrorResponse 400 ''Files array is required for indexing.'',
         ErrorResponse 500 ''service unavailable''], [])"
    by (simp add: failed_session_def query_request_def POST_def NotIndexed_def embed_down_def)
  have n: "\<forall>r\<in>set [NotIndexed, ErrorResponse 400 ''Files array is required for indexing.'',
         ErrorResponse 500 ''service unavailable'' :: (nat list, nat js_number) response]. \<not> is_IndexBuilt r"
    by (simp add: NotIndexed_def)
  from query_before_index_fails[OF s n, of None "''print''"] s show ?thesis by simp
qed

text \<open>
  Claim C10. An index request with an empty list of files succeeds with a file count
  of 0 and leaves the index empty, and a query on the empty index is answered with the
  error that the index is not built.
\<close>

theorem empty_index_then_query_fails:
  "POST getEmbedding cosineSimilarity codeIndex \<lparr>action = ''index'', files = Some [], query = q0\<rparr>
     = (IndexBuilt ''Embedding index built successfully.'' 0, [])
   \<and> POST getEmbedding cosineSimilarity [] \<lparr>action = ''query'', files = f, query = Some q\<rparr>
     = (NotIndexed, [])"
  by (simp add: POST_def NotIndexed_def)














section \<open>The sandbox\<close>

lemma emit_fields [simp]:
  "attempt (emit e s) = attempt s"
  "successfulCode (emit e s) = successfulCode s"
  "successfulTestCases (emit e s) = successfulTestCases s"
  "chatMessages (emit e s) = chatMessages s"
  "events (emit e s) = events s @ [e]"
  "fs (emit e s) = fs s"
  by (simp_all add: emit_def)

lemma push_fields [simp]:
  "attempt (push m s) = attempt s"
  "successfulCode (push m s) = successfulCode s"
  "successfulTestCases (push m s) = successfulTestCases s"
  "chatMessages (push m s) = chatMessages s @ [m]"
  "events (push m s) = events s"
  "fs (push m s) = fs s"
  by (simp_all add: push_def)

lemma push_tool_fields [simp]:
  "attempt (push_tool i c s) = attempt s"
  "successfulCode (push_tool i c s) = successfulCode s"
  "successfulTestCases (push_tool i c s) = successfulTestCases s"
  "chatMessages (push_tool i c s)
     = chatMessages s @ (if i \<noteq> [] then [tool_message c i] else [])"
  "events (push_tool i c s) = events s"
  "fs (push_tool i c s) = fs s"
  by (simp_all add: push_tool_def)

lemma increment_fields [simp]:
  "attempt (increment s) = attempt s + 1"
  "successfulCode (increment s) = successfulCode s"
  "successfulTestCases (increment s) = successfulTestCases s"
  "chatMessages (increment s) = chatMessages s"
  "events (increment s) = events s"
  "fs (increment s) = fs s"
  by (simp_all add: increment_def)

lemma scripted_world_fields [simp]:
  "llm (scripted_world a r i u) k conv = a k"
  "parse_run (scripted_world a r i u) args
     = (if args = ''{'' then Unparsable
        else if args = ''null'' then Throws ''Cannot destructure property of null''
        else Parsed (args, [''assert fix() == 1'']))"
  "parse_dependency (scripted_world a r i u) args
     = (if args = ''{'' then Unparsable
        else if args = ''null'' then Throws ''Cannot read properties of null''
        else Parsed args)"
  "writeFile (scripted_world a r i u) k path text = None"
  "execAsync (scripted_world a r i u) k command timeout = (if timeout = 30000 then i k else r k)"
  "unlink (scripted_world a r i u) k path = u"
  by (simp_all add: scripted_world_def)




lemma runPythonCode_result:
  "fst (runPythonCode w k files0 code testCases) = fst (run_file w k files0 code testCases)"
  by (simp add: runPythonCode_def split: prod.splits unlink_outcome.splits)




section \<open>The repair loop\<close>

lemma handle_download_attempt:
  "attempt (snd (handle_download w k tc s)) = attempt s
   \<or> attempt (snd (handle_download w k tc s)) = Suc (attempt s)"
  by (simp add: handle_download_def caught_def Let_def split: parsed.splits)

lemma auto_install_attempt:
  "attempt (snd (auto_install w k d s)) = attempt s
   \<or> attempt (snd (auto_install w k d s)) = Suc (attempt s)"
  by (simp add: auto_install_def Let_def)

lemma handle_run_attempt:
  "attempt (snd (handle_run w k p tc s)) = attempt s
   \<or> attempt (snd (handle_run w k p tc s)) = Suc (attempt s)"
proof (cases "parse_run w (tc_arguments tc)")
  case Unparsable
  then show ?thesis by (simp add: handle_run_def)
next
  case (Throws e)
  then show ?thesis by (simp add: handle_run_def caught_def)
next
  case (Parsed a)
  obtain code testCases where a: "a = (code, testCases)" by (cases a)
  show ?thesis
    using auto_install_attempt[of w k _ "push_tool (tc_id tc)
        (JsonResult (fst (runPythonCode w k (fs s) code testCases)))
        (emit (RunPython code testCases)
          (emit (Yield (''Generated code fix. Running test cases...'' @ nl @ nl)) s)
         \<lparr>fs := snd (runPythonCode w k (fs s) code testCases)\<rparr>)"]
    by (simp add: handle_run_def Parsed a Let_def split: option.splits)
qed

lemma iteration_attempt:
  "attempt (snd (iteration w k p s)) = attempt s
   \<or> attempt (snd (iteration w k p s)) = Suc (attempt s)"
  using handle_download_attempt[of w k _ "emit (LlmCall (conversation s))
          (emit (Yield (''Attempt '' @ show_nat (attempt s + 1)
             @ '': Generating Python code fix and test cases...'' @ nl @ nl)) s)"]
    handle_run_attempt[of w k p _ "emit (LlmCall (conversation s))
          (emit (Yield (''Attempt '' @ show_nat (attempt s + 1)
             @ '': Generating Python code fix and test cases...'' @ nl @ nl)) s)"]
  by (simp add: iteration_def caught_def Let_def split: llm_outcome.splits)

lemma loop_states_bound:
  "attempt s \<le> maxAttempts \<Longrightarrow> \<forall>s'\<in>set (loop_states w p fuel k s). attempt s' \<le> maxAttempts"
proof (induction fuel arbitrary: k s)
  case 0
  then show ?case by simp
next
  case (Suc fuel)
  show ?case
  proof (cases "loop_condition s")
    case False
    with Suc.prems show ?thesis by simp
  next
    case True
    then have lt: "attempt s < maxAttempts" by (simp add: loop_condition_def)
    obtain c s1 where it: "iteration w k p s = (c, s1)" by (cases "iteration w k p s")
    with iteration_attempt[of w k p s] lt have b: "attempt s1 \<le> maxAttempts" by auto
    show ?thesis
    proof (cases c)
      case Break
      with True it b Suc.prems show ?thesis by simp
    next
      case Next
      with True it Suc.IH[OF b] Suc.prems show ?thesis by simp
    qed
  qed
qed

lemma fix_loop_exit: "\<not> loop_condition s \<Longrightarrow> fix_loop w p fuel k s = Some s"
  by (cases fuel) simp_all

lemma llm_calls_append:
  "events s' = events s @ es \<Longrightarrow>
   llm_calls s' = llm_calls s + length (filter (\<lambda>e. case e of LlmCall c \<Rightarrow> True | _ \<Rightarrow> False) es)"
  by (simp add: llm_calls_def)

lemma failed_run_step:
  assumes "llm w k (conversation s) = ToolCall tc"
    and "tc_name tc = ''run_python_code''"
    and "parse_run w (tc_arguments tc) = Parsed (code, tests)"
    and "\<not> success (fst (runPythonCode w k (fs s) code tests))"
    and "missingDepMatch (output (fst (runPythonCode w k (fs s) code tests))) = None"
  shows "fst (iteration w k p s) = Next"
    and "attempt (snd (iteration w k p s)) = Suc (attempt s)"
    and "successfulCode (snd (iteration w k p s)) = successfulCode s"
    and "llm_calls (snd (iteration w k p s)) = Suc (llm_calls s)"
  using assms
  by (simp_all add: iteration_def handle_run_def Let_def llm_calls_def)

lemma failing_runs_exhaust:
  assumes H: "always_failing_tests w"
  shows "n = 5 - attempt s \<Longrightarrow> k = attempt s \<Longrightarrow> k \<le> 5 \<Longrightarrow> successfulCode s = None \<Longrightarrow> n \<le> fuel \<Longrightarrow>
    \<exists>s'. fix_loop w p fuel k s = Some s' \<and> attempt s' = 5 \<and> successfulCode s' = None
      \<and> llm_calls s' = llm_calls s + n"
proof (induction n arbitrary: k s fuel)
  case 0
  then have "\<not> loop_condition s" by (simp add: loop_condition_def maxAttempts_def)
  then have "fix_loop w p fuel k s = Some s" by (rule fix_loop_exit)
  with 0 show ?case by simp
next
  case (Suc n)
  then have lt: "k < 5" by simp
  from Suc.prems obtain fuel' where fuel: "fuel = Suc fuel'" "n \<le> fuel'"
    by (cases fuel) simp_all
  from H lt obtain tc code tests where
    tc: "llm w k (conversation s) = ToolCall tc" "tc_name tc = ''run_python_code''"
      "parse_run w (tc_arguments tc) = Parsed (code, tests)"
      "\<not> success (fst (runPythonCode w k (fs s) code tests))"
      "missingDepMatch (output (fst (runPythonCode w k (fs s) code tests))) = None"
    unfolding always_failing_tests_def by blast
  note step = failed_run_step[OF tc, of p]
  obtain s1 where it: "iteration w k p s = (Next, s1)"
    using step(1) by (cases "iteration w k p s") simp
  with step have s1: "attempt s1 = Suc (attempt s)" "successfulCode s1 = None"
    "llm_calls s1 = Suc (llm_calls s)"
    using Suc.prems by simp_all
  have cond: "loop_condition s"
    using Suc.prems lt by (simp add: loop_condition_def maxAttempts_def truthy_def)
  have "\<exists>s'. fix_loop w p fuel' (Suc k) s1 = Some s' \<and> attempt s' = 5 \<and> successfulCode s' = None
      \<and> llm_calls s' = llm_calls s1 + n"
    using Suc.prems s1 fuel lt by (intro Suc.IH) simp_all
  then show ?case
    using cond it fuel s1 by simp
qed

lemma finish_failure:
  "\<not> truthy (successfulCode s) \<Longrightarrow>
   outcome_of (finish s) = Failure \<and> events (finish s) = events s @ [Yield exhaustion_message]
   \<and> attempt (finish s) = attempt s \<and> llm_calls (finish s) = llm_calls s"
  by (simp add: finish_def outcome_of_def exhaustion_message_def llm_calls_def)

text \<open>
  Claim C1. In every run of the loop the attempt counter is at most 5 at the head of
  every pass and at the exit. In a state with the counter at 5 and no successful code the
  loop ends at once, with no further event (so no further call to the reasoning
  service), and the statement after the loop yields the exhaustion message: the outcome
  is the failure. Five passes whose runs fail with no missing module in their output
  end the session with the counter at 5, five calls to the reasoning service, and the
  failure.
\<close>

theorem attempt_counter_bound:
  "(\<forall>s \<in> set (loop_states w prompt fuel 0 (initial_state prompt files0)). attempt s \<le> 5)
   \<and> (attempt s = 5 \<and> \<not> truthy (successfulCode s) \<longrightarrow>
        fix_loop w prompt fuel k s = Some s \<and> outcome_of (finish s) = Failure
        \<and> events (finish s) = events s @ [Yield exhaustion_message])
   \<and> (always_failing_tests w \<and> 5 \<le> fuel \<longrightarrow>
        (\<exists>s'. streamFixProcess w prompt files0 fuel = Some s' \<and> attempt s' = 5
           \<and> outcome_of s' = Failure \<and> llm_calls s' = 5
           \<and> last (events s') = Yield exhaustion_message))"
proof (intro conjI impI)
  show "\<forall>s \<in> set (loop_states w prompt fuel 0 (initial_state prompt files0)). attempt s \<le> 5"
    using loop_states_bound[of "initial_state prompt files0" w prompt fuel 0]
    by (simp add: initial_state_def maxAttempts_def)
next
  assume a: "attempt s = 5 \<and> \<not> truthy (successfulCode s)"
  then have "\<not> loop_condition s" by (simp add: loop_condition_def maxAttempts_def)
  then show "fix_loop w prompt fuel k s = Some s" by (rule fix_loop_exit)
  from a show "outcome_of (finish s) = Failure" by (simp add: finish_failure)
  from a show "events (finish s) = events s @ [Yield exhaustion_message]"
    by (simp add: finish_failure)
next
  assume a: "always_failing_tests w \<and> 5 \<le> fuel"
  let ?s0 = "initial_state prompt files0"
  have i: "attempt ?s0 = 0" "successfulCode ?s0 = None" "llm_calls ?s0 = 0"
    by (simp_all add: initial_state_def llm_calls_def)
  from a i obtain s1 where s1: "fix_loop w prompt fuel 0 ?s0 = Some s1" "attempt s1 = 5"
    "successfulCode s1 = None" "llm_calls s1 = 5"
    using failing_runs_exhaust[of w 5 ?s0 0 fuel prompt] by auto
  then have "\<not> truthy (successfulCode s1)" by (simp add: truthy_def)
  from finish_failure[OF this] s1
  have "streamFixProcess w prompt files0 fuel = Some (finish s1) \<and> attempt (finish s1) = 5
      \<and> outcome_of (finish s1) = Failure \<and> llm_calls (finish s1) = 5
      \<and> last (events (finish s1)) = Yield exhaustion_message"
    by (simp add: streamFixProcess_def)
  then show "\<exists>s'. streamFixProcess w prompt files0 fuel = Some s' \<and> attempt s' = 5
           \<and> outcome_of s' = Failure \<and> llm_calls s' = 5
           \<and> last (events s') = Yield exhaustion_message"
    by blast
qed

lemma loop_states_head: "s \<in> set (loop_states w p fuel k s)"
proof (cases fuel)
  case 0
  then show ?thesis by simp
next
  case (Suc n)
  then show ?thesis by (simp only: loop_states.simps list.set insertI1)
qed

lemma failing_world_fails: "always_failing_tests failing_world"
proof -
  have m: "missingDepMatch ''AssertionError'' = None"
    by (simp add: match_here_def dep_marker_def)
  have r: "fst (runPythonCode failing_world k files0 code tests)
      = \<lparr>success = False, output = ''AssertionError''\<rparr>" for k files0 code tests
    by (simp add: runPythonCode_result run_file_def failing_world_def stderr_or_message_def)
  show ?thesis
    unfolding always_failing_tests_def
  proof (intro allI impI)
    fix k :: nat and conv
    have "llm failing_world k conv = run_call ''call_1'' ''def fix(): return 0''"
      by (simp add: failing_world_def)
    moreover have "parse_run failing_world ''def fix(): return 0''
        = Parsed (''def fix(): return 0'', [''assert fix() == 1''])"
      by (simp add: failing_world_def)
    ultimately show "\<exists>tc code tests.
        llm failing_world k conv = ToolCall tc \<and> tc_name tc = ''run_python_code''
        \<and> parse_run failing_world (tc_arguments tc) = Parsed (code, tests)
        \<and> (\<forall>files0. \<not> success (fst (runPythonCode failing_world k files0 code tests))
              \<and> missingDepMatch (output (fst (runPythonCode failing_world k files0 code tests))) = None)"
      using m r by (simp add: run_call_def)
  qed
qed

theorem attempt_counter_bound_witness:
  "attempt (initial_state ''issue'' Map.empty) \<le> 5
   \<and> fix_loop failing_world ''issue'' 5 5 ((initial_state ''issue'' Map.empty)\<lparr>attempt := 5\<rparr>)
       = Some ((initial_state ''issue'' Map.empty)\<lparr>attempt := 5\<rparr>)
   \<and> (\<exists>s'. streamFixProcess failing_world ''issue'' Map.empty 5 = Some s' \<and> attempt s' = 5
         \<and> outcome_of s' = Failure \<and> llm_calls s' = 5
         \<and> last (events s') = Yield exhaustion_message)"
proof -
  note t = attempt_counter_bound[of failing_world "''issue''" 5 Map.empty
      "(initial_state ''issue'' Map.empty)\<lparr>attempt := 5\<rparr>" 5]
  have mem: "initial_state ''issue'' Map.empty
      \<in> set (loop_states failing_world ''issue'' 5 0 (initial_state ''issue'' Map.empty))"
    by (rule loop_states_head)
  have s5: "attempt ((initial_state ''issue'' Map.empty)\<lparr>attempt := 5\<rparr>) = 5
      \<and> \<not> truthy (successfulCode ((initial_state ''issue'' Map.empty)\<lparr>attempt := 5\<rparr>))"
    by (simp add: initial_state_def truthy_def)
  have f: "always_failing_tests failing_world \<and> (5::nat) \<le> 5"
    by (simp add: failing_world_fails)
  from t mem have 1: "attempt (initial_state ''issue'' Map.empty) \<le> 5" by blast
  from t s5 have 2: "fix_loop failing_world ''issue'' 5 5 ((initial_state ''issue'' Map.empty)\<lparr>attempt := 5\<rparr>)
       = Some ((initial_state ''issue'' Map.empty)\<lparr>attempt := 5\<rparr>)" by blast
  from t f have 3: "\<exists>s'. streamFixProcess failing_world ''issue'' Map.empty 5 = Some s' \<and> attempt s' = 5
         \<and> outcome_of s' = Failure \<and> llm_calls s' = 5
         \<and> last (events s') = Yield exhaustion_message" by blast
  from 1 2 3 show ?thesis by blast
qed

text \<open>
  Claim C2. In a pass whose run fails with an output that names a missing module
  \<open>d\<close>, the loop installs \<open>d\<close> in the same pass: the only call to the reasoning
  service of the pass is the one before the run, and the installation follows the run
  with no further call. When the installation succeeds the counter is as before the pass
  and the retry prompt is the last message appended; when it fails the counter is one
  more. In both cases the pass ends with \<^verbatim>\<open>continue\<close>.
\<close>

theorem missing_dependency_auto_install:
  assumes "llm w k (conversation s) = ToolCall tc"
    and "tc_name tc = ''run_python_code''"
    and "parse_run w (tc_arguments tc) = Parsed (code, tests)"
    and "result = fst (runPythonCode w k (fs s) code tests)"
    and "\<not> success result"
    and "missingDepMatch (output result) = Some d"
    and "depResult = downloadDependency w k d"
    and "s' = snd (iteration w k prompt s)"
  shows "fst (iteration w k prompt s) = Next
    \<and> events s' = events s @
        [Yield (''Attempt '' @ show_nat (attempt s + 1)
                  @ '': Generating Python code fix and test cases...'' @ nl @ nl),
         LlmCall (conversation s),
         Yield (''Generated code fix. Running test cases...'' @ nl @ nl),
         RunPython code tests,
         Yield (''Missing dependency detected: '' @ d @ ''. Attempting to install...'' @ nl @ nl),
         Download d,
         Yield (''Dependency installation output: '' @ output depResult @ nl @ nl)]
    \<and> llm_calls s' = llm_calls s + 1
    \<and> (success depResult \<longrightarrow>
          attempt s' = attempt s
          \<and> chatMessages s' = chatMessages s
               @ (if tc_id tc \<noteq> [] then [tool_message (JsonResult result) (tc_id tc)] else [])
               @ [user_message (''Dependency '' @ d
                    @ '' installed successfully. Please retry generating the code fix.'')])
    \<and> (\<not> success depResult \<longrightarrow>
          attempt s' = attempt s + 1
          \<and> chatMessages s' = chatMessages s
               @ (if tc_id tc \<noteq> [] then [tool_message (JsonResult result) (tc_id tc)] else [])
               @ [user_message (''Failed to install dependency '' @ d @ '': '' @ output depResult
                    @ ''. Please check the installation.'')])"
  using assms
  by (simp add: iteration_def handle_run_def auto_install_def Let_def llm_calls_def)

lemma missing_module_result:
  "fst (runPythonCode (missing_module_world i) k files0 code tests)
     = \<lparr>success = False, output = ''Traceback: '' @ dep_marker @ quote @ ''foo'' @ quote\<rparr>"
  by (simp add: runPythonCode_result run_file_def missing_module_world_def stderr_or_message_def)

lemma missing_module_match:
  "missingDepMatch (''Traceback: '' @ dep_marker @ quote @ ''foo'' @ quote) = Some ''foo''"
  by (simp add: match_here_def dep_marker_def quote_def is_quote_def)

theorem missing_dependency_auto_install_witness:
  "attempt (snd (iteration (missing_module_world (Resolved ''Successfully installed foo'' []))
       0 ''issue'' (initial_state ''issue'' Map.empty))) = 0
   \<and> chatMessages (snd (iteration (missing_module_world (Resolved ''Successfully installed foo'' []))
       0 ''issue'' (initial_state ''issue'' Map.empty)))
     = [user_message ''issue'',
        tool_message (JsonResult \<lparr>success = False,
            output = ''Traceback: '' @ dep_marker @ quote @ ''foo'' @ quote\<rparr>) ''call_1'',
        user_message ''Dependency foo installed successfully. Please retry generating the code fix.'']
   \<and> attempt (snd (iteration (missing_module_world (Resolved [] ''ERROR: No matching distribution''))
       0 ''issue'' (initial_state ''issue'' Map.empty))) = 1"
proof -
  let ?ok = "missing_module_world (Resolved ''Successfully installed foo'' [])"
  let ?bad = "missing_module_world (Resolved [] ''ERROR: No matching distribution'')"
  let ?s0 = "initial_state ''issue'' Map.empty"
  let ?tc = "\<lparr>tc_id = ''call_1'', tc_name = ''run_python_code'', tc_arguments = ''import foo''\<rparr>"
  let ?r = "\<lparr>success = False, output = ''Traceback: '' @ dep_marker @ quote @ ''foo'' @ quote\<rparr>"
  have l: "llm (missing_module_world i) 0 (conversation ?s0) = ToolCall ?tc" for i
    by (simp add: missing_module_world_def run_call_def)
  have p: "parse_run (missing_module_world i) (tc_arguments ?tc)
      = Parsed (''import foo'', [''assert fix() == 1''])" for i
    by (simp add: missing_module_world_def)
  have r: "?r = fst (runPythonCode (missing_module_world i) 0 (fs ?s0) ''import foo''
      [''assert fix() == 1''])" for i
    by (simp add: missing_module_result)
  have n: "tc_name ?tc = ''run_python_code''" by simp
  have ns: "\<not> success ?r" by simp
  have m: "missingDepMatch (output ?r) = Some ''foo''"
    using missing_module_match by simp
  have dok: "downloadDependency ?ok 0 ''foo'' = \<lparr>success = True, output = ''Successfully installed foo''\<rparr>"
    by (simp add: downloadDependency_def missing_module_world_def)
  have dbad: "downloadDependency ?bad 0 ''foo''
      = \<lparr>success = False, output = ''ERROR: No matching distribution''\<rparr>"
    by (simp add: downloadDependency_def missing_module_world_def trim_def is_space_def
        is_space2_def is_space3_def)
  note ok = missing_dependency_auto_install[OF l n p r ns m dok[symmetric] refl, of "''issue''"]
  note bad = missing_dependency_auto_install[OF l n p r ns m dbad[symmetric] refl, of "''issue''"]
  have 1: "attempt (snd (iteration ?ok 0 ''issue'' ?s0)) = 0"
    using ok by (simp add: initial_state_def)
  have 2: "chatMessages (snd (iteration ?ok 0 ''issue'' ?s0))
     = [user_message ''issue'', tool_message (JsonResult ?r) ''call_1'',
        user_message ''Dependency foo installed successfully. Please retry generating the code fix.'']"
    using ok by (simp add: initial_state_def)
  have 3: "attempt (snd (iteration ?bad 0 ''issue'' ?s0)) = 1"
    using bad by (simp add: initial_state_def)
  from 1 2 3 show ?thesis by blast
qed

section \<open>The conversation\<close>

lemma handle_download_messages:
  "\<exists>c us. chatMessages (snd (handle_download w k tc s))
     = chatMessages s
       @ (if tc_id tc \<noteq> [] \<and> \<not> is_throws (parse_dependency w (tc_arguments tc))
          then [tool_message c (tc_id tc)] else [])
       @ map user_message us"
proof (cases "parse_dependency w (tc_arguments tc)")
  case Unparsable
  have "chatMessages (snd (handle_download w k tc s))
     = chatMessages s
       @ (if tc_id tc \<noteq> [] \<and> \<not> is_throws (parse_dependency w (tc_arguments tc))
          then [tool_message (JsonError ''Error parsing function arguments for download_dependency'')
                  (tc_id tc)]
          else [])
       @ map user_message
           [''Function call arguments for download_dependency could not be parsed. Please ensure proper JSON formatting.'']"
    using Unparsable by (simp add: handle_download_def)
  then show ?thesis by blast
next
  case (Throws e)
  have "chatMessages (snd (handle_download w k tc s))
     = chatMessages s
       @ (if tc_id tc \<noteq> [] \<and> \<not> is_throws (parse_dependency w (tc_arguments tc))
          then [tool_message (JsonError []) (tc_id tc)] else [])
       @ map user_message []"
    using Throws by (simp add: handle_download_def caught_def)
  then show ?thesis by blast
next
  case (Parsed d)
  let ?r = "downloadDependency w k d"
  show ?thesis
  proof (cases "success ?r")
    case True
    have "chatMessages (snd (handle_download w k tc s))
       = chatMessages s
         @ (if tc_id tc \<noteq> [] \<and> \<not> is_throws (parse_dependency w (tc_arguments tc))
            then [tool_message (JsonResult ?r) (tc_id tc)] else [])
         @ map user_message
             [''Successfully installed dependency '' @ d
                @ ''. Please regenerate the code fix if necessary.'']"
      using Parsed True by (simp add: handle_download_def Let_def)
    then show ?thesis by blast
  next
    case False
    have "chatMessages (snd (handle_download w k tc s))
       = chatMessages s
         @ (if tc_id tc \<noteq> [] \<and> \<not> is_throws (parse_dependency w (tc_arguments tc))
            then [tool_message (JsonResult ?r) (tc_id tc)] else [])
         @ map user_message
             [''Failed to install dependency '' @ d @ '': '' @ output ?r
                @ ''. Please correct the installation and try again.'']"
      using Parsed False by (simp add: handle_download_def Let_def)
    then show ?thesis by blast
  qed
qed

lemma auto_install_messages:
  "\<exists>u. chatMessages (snd (auto_install w k d s)) = chatMessages s @ [user_message u]"
  by (cases "success (downloadDependency w k d)") (simp add: auto_install_def Let_def; blast)+

lemma handle_run_messages:
  "\<exists>c us. chatMessages (snd (handle_run w k p tc s))
     = chatMessages s
       @ (if tc_id tc \<noteq> [] \<and> \<not> is_throws (parse_run w (tc_arguments tc))
          then [tool_message c (tc_id tc)] else [])
       @ map user_message us"
proof (cases "parse_run w (tc_arguments tc)")
  case Unparsable
  have "chatMessages (snd (handle_run w k p tc s))
     = chatMessages s
       @ (if tc_id tc \<noteq> [] \<and> \<not> is_throws (parse_run w (tc_arguments tc))
          then [tool_message (JsonError ''Error parsing function arguments for run_python_code'') (tc_id tc)]
          else [])
       @ map user_message
           [''Function call arguments for run_python_code could not be parsed. Please ensure proper JSON formatting.'']"
    using Unparsable by (simp add: handle_run_def)
  then show ?thesis by blast
next
  case (Throws e)
  have "chatMessages (snd (handle_run w k p tc s))
     = chatMessages s
       @ (if tc_id tc \<noteq> [] \<and> \<not> is_throws (parse_run w (tc_arguments tc))
          then [tool_message (JsonError []) (tc_id tc)] else [])
       @ map user_message []"
    using Throws by (simp add: handle_run_def caught_def)
  then show ?thesis by blast
next
  case (Parsed a)
  obtain code tests where a: "a = (code, tests)" by (cases a)
  let ?res = "fst (runPythonCode w k (fs s) code tests)"
  let ?s2 = "push_tool (tc_id tc) (JsonResult ?res)
      (emit (RunPython code tests)
        (emit (Yield (''Generated code fix. Running test cases...'' @ nl @ nl)) s)
       \<lparr>fs := snd (runPythonCode w k (fs s) code tests)\<rparr>)"
  let ?tool = "if tc_id tc \<noteq> [] \<and> \<not> is_throws (parse_run w (tc_arguments tc))
      then [tool_message (JsonResult ?res) (tc_id tc)] else []"
  show ?thesis
  proof (cases "success ?res")
    case True
    then have "chatMessages (snd (handle_run w k p tc s))
        = chatMessages s @ ?tool @ map user_message []"
      using Parsed a by (simp add: handle_run_def Let_def)
    then show ?thesis by blast
  next
    case False
    show ?thesis
    proof (cases "missingDepMatch (output ?res)")
      case None
      then have "chatMessages (snd (handle_run w k p tc s))
        = chatMessages s @ ?tool
          @ map user_message [''The tests failed with the error: '' @ output ?res
                                 @ ''. The code: '' @ code @ ''. The original issue: '' @ p
                                 @ ''. Please improve the code fix accordingly.'']"
        using Parsed a False by (simp add: handle_run_def Let_def)
      then show ?thesis by blast
    next
      case (Some d)
      from auto_install_messages[of w k d ?s2] obtain u where
        "chatMessages (snd (auto_install w k d ?s2)) = chatMessages ?s2 @ [user_message u]"
        by blast
      then have "chatMessages (snd (handle_run w k p tc s))
        = chatMessages s @ ?tool @ map user_message [u]"
        using Parsed a False Some by (simp add: handle_run_def Let_def)
      then show ?thesis by blast
    qed
  qed
qed

lemma iteration_messages:
  "\<exists>c us. chatMessages (snd (iteration w k p s))
     = chatMessages s
       @ (case handled_call w (llm w k (conversation s)) of
            Some i \<Rightarrow> [tool_message c i] | None \<Rightarrow> [])
       @ map user_message us"
proof (cases "llm w k (conversation s)")
  case (ApiError e)
  then have "chatMessages (snd (iteration w k p s)) = chatMessages s @ [] @ map user_message []"
    by (simp add: iteration_def caught_def Let_def)
  with ApiError show ?thesis by (simp add: handled_call_def)
next
  case NoToolCall
  then have "chatMessages (snd (iteration w k p s)) = chatMessages s @ [] @ map user_message []"
    by (simp add: iteration_def Let_def)
  with NoToolCall show ?thesis by (simp add: handled_call_def)
next
  case (ToolCall tc)
  let ?s1 = "emit (LlmCall (conversation s))
      (emit (Yield (''Attempt '' @ show_nat (attempt s + 1)
         @ '': Generating Python code fix and test cases...'' @ nl @ nl)) s)"
  have s1: "chatMessages ?s1 = chatMessages s" by simp
  show ?thesis
  proof (cases "tc_name tc = ''download_dependency''")
    case True
    from handle_download_messages[of w k tc ?s1] obtain c us where
      "chatMessages (snd (handle_download w k tc ?s1))
        = chatMessages s
          @ (if tc_id tc \<noteq> [] \<and> \<not> is_throws (parse_dependency w (tc_arguments tc))
             then [tool_message c (tc_id tc)] else [])
          @ map user_message us"
      unfolding s1 by auto
    then have "chatMessages (snd (iteration w k p s))
        = chatMessages s
          @ (case handled_call w (llm w k (conversation s)) of
               Some i \<Rightarrow> [tool_message c i] | None \<Rightarrow> [])
          @ map user_message us"
      using ToolCall True
      by (simp add: iteration_def Let_def handled_call_def handler_throws_def)
    then show ?thesis by blast
  next
    case nd: False
    show ?thesis
    proof (cases "tc_name tc = ''run_python_code''")
      case True
      from handle_run_messages[of w k p tc ?s1] obtain c us where
        "chatMessages (snd (handle_run w k p tc ?s1))
          = chatMessages s
            @ (if tc_id tc \<noteq> [] \<and> \<not> is_throws (parse_run w (tc_arguments tc))
               then [tool_message c (tc_id tc)] else [])
            @ map user_message us"
        unfolding s1 by auto
      then have "chatMessages (snd (iteration w k p s))
          = chatMessages s
            @ (case handled_call w (llm w k (conversation s)) of
                 Some i \<Rightarrow> [tool_message c i] | None \<Rightarrow> [])
            @ map user_message us"
        using ToolCall True nd
        by (simp add: iteration_def Let_def handled_call_def handler_throws_def)
      then show ?thesis by blast
    next
      case False
      with nd ToolCall have "chatMessages (snd (iteration w k p s))
          = chatMessages s @ [] @ map user_message []"
        by (simp add: iteration_def Let_def)
      with False nd ToolCall show ?thesis by (simp add: handled_call_def)
    qed
  qed
qed

lemma role_user_message [simp]: "role (user_message u) = ''user''"
  by (simp add: user_message_def)

lemma role_tool_message [simp]: "role (tool_message c i) = ''tool''"
  by (simp add: tool_message_def)

lemma iteration_appended:
  "chatMessages (snd (iteration w k p s)) = chatMessages s @ appended s (snd (iteration w k p s))"
  using iteration_messages[of w k p s] by (auto simp: appended_def)

lemma appended_shape:
  "\<exists>c us. appended s (snd (iteration w k p s))
     = (case handled_call w (llm w k (conversation s)) of
          Some i \<Rightarrow> [tool_message c i] | None \<Rightarrow> [])
       @ map user_message us"
proof -
  from iteration_messages[of w k p s] obtain c us where
    "chatMessages (snd (iteration w k p s))
      = chatMessages s
        @ (case handled_call w (llm w k (conversation s)) of
             Some i \<Rightarrow> [tool_message c i] | None \<Rightarrow> [])
        @ map user_message us"
    by blast
  then have "appended s (snd (iteration w k p s))
      = (case handled_call w (llm w k (conversation s)) of
           Some i \<Rightarrow> [tool_message c i] | None \<Rightarrow> [])
        @ map user_message us"
    by (simp add: appended_def)
  then show ?thesis by blast
qed

lemma appended_roles:
  "\<forall>m\<in>set (appended s (snd (iteration w k p s))). (role m = ''user'' \<or> role m = ''tool'')"
proof -
  from appended_shape[of s w k p] obtain c us where
    a: "appended s (snd (iteration w k p s))
      = (case handled_call w (llm w k (conversation s)) of
           Some i \<Rightarrow> [tool_message c i] | None \<Rightarrow> [])
        @ map user_message us"
    by blast
  show ?thesis unfolding a by (auto split: option.splits)
qed

lemma filter_tool_user: "filter (\<lambda>m. role m = ''tool'') (map user_message us) = []"
  by (induction us) simp_all

lemma appended_tool_turns:
  "\<exists>c. filter (\<lambda>m. role m = ''tool'') (appended s (snd (iteration w k p s)))
     = (case handled_call w (llm w k (conversation s)) of
          Some i \<Rightarrow> [tool_message c i] | None \<Rightarrow> [])"
proof -
  from appended_shape[of s w k p] obtain c us where
    a: "appended s (snd (iteration w k p s))
      = (case handled_call w (llm w k (conversation s)) of
           Some i \<Rightarrow> [tool_message c i] | None \<Rightarrow> [])
        @ map user_message us"
    by blast
  have "filter (\<lambda>m. role m = ''tool'') (appended s (snd (iteration w k p s)))
     = (case handled_call w (llm w k (conversation s)) of
          Some i \<Rightarrow> [tool_message c i] | None \<Rightarrow> [])"
    unfolding a by (simp add: filter_tool_user split: option.splits)
  then show ?thesis by blast
qed

lemma iteration_roles:
  assumes "\<forall>m\<in>set (chatMessages s). (role m = ''user'' \<or> role m = ''tool'')"
  shows "\<forall>m\<in>set (chatMessages (snd (iteration w k p s))). (role m = ''user'' \<or> role m = ''tool'')"
proof -
  have "set (chatMessages (snd (iteration w k p s)))
      = set (chatMessages s) \<union> set (appended s (snd (iteration w k p s)))"
    using iteration_appended[of w k p s] by (metis set_append)
  then show ?thesis using assms appended_roles[of s w k p] by auto
qed

lemma fix_loop_roles:
  "\<forall>m\<in>set (chatMessages s). (role m = ''user'' \<or> role m = ''tool'') \<Longrightarrow> fix_loop w p fuel k s = Some s' \<Longrightarrow>
   \<forall>m\<in>set (chatMessages s'). (role m = ''user'' \<or> role m = ''tool'')"
proof (induction fuel arbitrary: k s)
  case 0
  then show ?case by (simp split: if_splits)
next
  case (Suc fuel)
  show ?case
  proof (cases "loop_condition s")
    case False
    with Suc.prems show ?thesis by simp
  next
    case True
    obtain c s1 where it: "iteration w k p s = (c, s1)" by (cases "iteration w k p s")
    from iteration_roles[OF Suc.prems(1), of w k p] it
    have inv: "\<forall>m\<in>set (chatMessages s1). (role m = ''user'' \<or> role m = ''tool'')" by simp
    show ?thesis
    proof (cases c)
      case Break
      with True it Suc.prems(2) have "s' = s1" by simp
      with inv show ?thesis by simp
    next
      case Next
      with True it Suc.prems(2) have "fix_loop w p fuel (Suc k) s1 = Some s'" by simp
      from Suc.IH[OF inv this] show ?thesis .
    qed
  qed
qed

lemma handler_throws_nothing_appended:
  assumes "llm w k (conversation s) = ToolCall tc" and "handler_throws w tc"
  shows "appended s (snd (iteration w k p s)) = []"
proof (cases "tc_name tc = ''download_dependency''")
  case True
  with assms(2) obtain e where "parse_dependency w (tc_arguments tc) = Throws e"
    by (cases "parse_dependency w (tc_arguments tc)") (simp_all add: handler_throws_def)
  with assms(1) True show ?thesis
    by (simp add: appended_def iteration_def handle_download_def caught_def Let_def)
next
  case False
  with assms(2) have r: "tc_name tc = ''run_python_code''"
    by (simp add: handler_throws_def split: if_splits)
  with assms(2) False obtain e where "parse_run w (tc_arguments tc) = Throws e"
    by (cases "parse_run w (tc_arguments tc)") (simp_all add: handler_throws_def)
  with assms(1) False r show ?thesis
    by (simp add: appended_def iteration_def handle_run_def caught_def Let_def)
qed

lemma finish_chatMessages [simp]: "chatMessages (finish s) = chatMessages s"
  by (simp add: finish_def)

lemma failing_world_first_pass:
  "chatMessages (snd (iteration failing_world 0 ''issue'' (initial_state ''issue'' Map.empty)))
     = [user_message ''issue'',
        tool_message (JsonResult \<lparr>success = False, output = ''AssertionError''\<rparr>) ''call_1'',
        user_message ''The tests failed with the error: AssertionError. The code: def fix(): return 0. The original issue: issue. Please improve the code fix accordingly.'']"
proof -
  have m: "missingDepMatch ''AssertionError'' = None"
    by (simp add: match_here_def dep_marker_def)
  have r: "fst (runPythonCode failing_world 0 files0 code tests)
      = \<lparr>success = False, output = ''AssertionError''\<rparr>" for files0 code tests
    by (simp add: runPythonCode_result run_file_def failing_world_def stderr_or_message_def)
  have l: "llm failing_world 0 conv = ToolCall \<lparr>tc_id = ''call_1'',
      tc_name = ''run_python_code'', tc_arguments = ''def fix(): return 0''\<rparr>" for conv
    by (simp add: failing_world_def run_call_def)
  have p: "parse_run failing_world ''def fix(): return 0''
      = Parsed (''def fix(): return 0'', [''assert fix() == 1''])"
    by (simp add: failing_world_def)
  show ?thesis
    by (simp add: iteration_def handle_run_def Let_def l p r match_here_def dep_marker_def
        initial_state_def user_message_def)
qed

lemma unknown_tool_first_pass:
  "chatMessages (snd (iteration unknown_tool_world 0 ''issue'' (initial_state ''issue'' Map.empty)))
     = [user_message ''issue'']"
  by (simp add: iteration_def Let_def initial_state_def conversation_def user_message_def
      unknown_tool_world_def)

lemma misfit_first_pass:
  "chatMessages (snd (iteration misfit_world 0 ''issue'' (initial_state ''issue'' Map.empty)))
     = [user_message ''issue'']"
  by (simp add: iteration_def handle_run_def caught_def Let_def initial_state_def
      conversation_def user_message_def misfit_world_def run_call_def)

text \<open>
  Claim C3, amended. A pass only appends to \<^verbatim>\<open>chatMessages\<close>, and what it appends are
  messages of role \<open>user\<close> or \<open>tool\<close>: no message of role \<open>assistant\<close> is ever
  stored, in a pass or in a whole session, so the request that a tool turn answers is
  never in the conversation; the conversation sent to the reasoning service has the tool
  turns filtered out. For a tool call that names \<^verbatim>\<open>download_dependency\<close> or
  \<^verbatim>\<open>run_python_code\<close> and has a non-empty id, the pass appends exactly one tool turn,
  with that id, when the arguments do not parse and when they parse to a value that the
  handler accepts. When the arguments parse to a value on which the handler throws, the
  pass appends nothing. For any other reply (no tool call, another name, an empty id) it
  appends no tool turn.
\<close>

theorem tool_result_turns:
  "chatMessages (snd (iteration w k prompt s))
     = chatMessages s @ appended s (snd (iteration w k prompt s))
   \<and> (\<forall>m\<in>set (conversation s). role m \<noteq> ''tool'')
   \<and> (\<forall>m\<in>set (appended s (snd (iteration w k prompt s))). (role m = ''user'' \<or> role m = ''tool''))
   \<and> (streamFixProcess w prompt files0 fuel = Some final \<longrightarrow>
        (\<forall>m\<in>set (chatMessages final). (role m = ''user'' \<or> role m = ''tool'')))
   \<and> (llm w k (conversation s) = ToolCall tc \<and> tc_id tc \<noteq> []
        \<and> (tc_name tc = ''download_dependency'' \<or> tc_name tc = ''run_python_code'')
        \<and> \<not> handler_throws w tc \<longrightarrow>
        (\<exists>c. filter (\<lambda>m. role m = ''tool'') (appended s (snd (iteration w k prompt s)))
           = [tool_message c (tc_id tc)]))
   \<and> (handled_call w (llm w k (conversation s)) = None \<longrightarrow>
        filter (\<lambda>m. role m = ''tool'') (appended s (snd (iteration w k prompt s))) = [])
   \<and> (llm w k (conversation s) = ToolCall tc \<and> handler_throws w tc \<longrightarrow>
        appended s (snd (iteration w k prompt s)) = [])"
proof (intro conjI impI)
  show "chatMessages (snd (iteration w k prompt s))
     = chatMessages s @ appended s (snd (iteration w k prompt s))"
    by (rule iteration_appended)
  show "\<forall>m\<in>set (conversation s). role m \<noteq> ''tool''"
    by (simp add: conversation_def)
  show "\<forall>m\<in>set (appended s (snd (iteration w k prompt s))). (role m = ''user'' \<or> role m = ''tool'')"
    by (rule appended_roles)
next
  assume "streamFixProcess w prompt files0 fuel = Some final"
  then obtain s1 where s1: "fix_loop w prompt fuel 0 (initial_state prompt files0) = Some s1"
    and f: "final = finish s1"
    by (auto simp: streamFixProcess_def)
  have "\<forall>m\<in>set (chatMessages (initial_state prompt files0)). (role m = ''user'' \<or> role m = ''tool'')"
    by (simp add: initial_state_def)
  from fix_loop_roles[OF this s1] f
  show "\<forall>m\<in>set (chatMessages final). (role m = ''user'' \<or> role m = ''tool'')"
    by simp
next
  assume a: "llm w k (conversation s) = ToolCall tc \<and> tc_id tc \<noteq> []
        \<and> (tc_name tc = ''download_dependency'' \<or> tc_name tc = ''run_python_code'')
        \<and> \<not> handler_throws w tc"
  then have h: "handled_call w (llm w k (conversation s)) = Some (tc_id tc)"
    by (auto simp: handled_call_def)
  from appended_tool_turns[of s w k prompt] h
  show "\<exists>c. filter (\<lambda>m. role m = ''tool'') (appended s (snd (iteration w k prompt s)))
           = [tool_message c (tc_id tc)]"
    by simp
next
  assume "handled_call w (llm w k (conversation s)) = None"
  with appended_tool_turns[of s w k prompt]
  show "filter (\<lambda>m. role m = ''tool'') (appended s (snd (iteration w k prompt s))) = []"
    by simp
next
  assume "llm w k (conversation s) = ToolCall tc \<and> handler_throws w tc"
  then show "appended s (snd (iteration w k prompt s)) = []"
    using handler_throws_nothing_appended by blast
qed

theorem tool_result_turns_witness:
  "filter (\<lambda>m. role m = ''tool'')
       (appended (initial_state ''issue'' Map.empty)
          (snd (iteration failing_world 0 ''issue'' (initial_state ''issue'' Map.empty))))
     = [tool_message (JsonResult \<lparr>success = False, output = ''AssertionError''\<rparr>) ''call_1'']
   \<and> filter (\<lambda>m. role m = ''tool'')
       (appended (initial_state ''issue'' Map.empty)
          (snd (iteration unknown_tool_world 0 ''issue'' (initial_state ''issue'' Map.empty))))
     = []
   \<and> appended (initial_state ''issue'' Map.empty)
          (snd (iteration misfit_world 0 ''issue'' (initial_state ''issue'' Map.empty)))
     = []
   \<and> role (user_message ''issue'') \<noteq> ''tool''
   \<and> (\<exists>final. streamFixProcess failing_world ''issue'' Map.empty 5 = Some final
         \<and> (\<forall>m\<in>set (chatMessages final). (role m = ''user'' \<or> role m = ''tool'')))"
proof -
  let ?s0 = "initial_state ''issue'' Map.empty"
  let ?tc = "\<lparr>tc_id = ''call_1'', tc_name = ''run_python_code'',
      tc_arguments = ''def fix(): return 0''\<rparr>"
  have l: "llm failing_world 0 (conversation ?s0) = ToolCall ?tc \<and> tc_id ?tc \<noteq> []
      \<and> (tc_name ?tc = ''download_dependency'' \<or> tc_name ?tc = ''run_python_code'')
      \<and> \<not> handler_throws failing_world ?tc"
    by (simp add: failing_world_def run_call_def handler_throws_def)
  from tool_result_turns[of failing_world 0 "''issue''" ?s0 Map.empty 5 ?s0 ?tc] l
  obtain c where c: "filter (\<lambda>m. role m = ''tool'')
      (appended ?s0 (snd (iteration failing_world 0 ''issue'' ?s0))) = [tool_message c (tc_id ?tc)]"
    by blast
  have a: "appended ?s0 (snd (iteration failing_world 0 ''issue'' ?s0))
      = [tool_message (JsonResult \<lparr>success = False, output = ''AssertionError''\<rparr>) ''call_1'',
         user_message ''The tests failed with the error: AssertionError. The code: def fix(): return 0. The original issue: issue. Please improve the code fix accordingly.'']"
    unfolding appended_def failing_world_first_pass by (simp add: initial_state_def)
  from c have 1: "filter (\<lambda>m. role m = ''tool'')
      (appended ?s0 (snd (iteration failing_world 0 ''issue'' ?s0)))
      = [tool_message (JsonResult \<lparr>success = False, output = ''AssertionError''\<rparr>) ''call_1'']"
    unfolding a by simp
  have h: "handled_call unknown_tool_world (llm unknown_tool_world 0 (conversation ?s0)) = None"
    by (simp add: unknown_tool_world_def handled_call_def)
  let ?tm = "\<lparr>tc_id = ''call_2'', tc_name = ''run_python_code'', tc_arguments = ''null''\<rparr>"
  have lm: "llm misfit_world 0 (conversation ?s0) = ToolCall ?tm \<and> handler_throws misfit_world ?tm"
    by (simp add: misfit_world_def run_call_def handler_throws_def)
  from tool_result_turns[of misfit_world 0 "''issue''" ?s0 Map.empty 5 ?s0 ?tm] lm
  have 5: "appended ?s0 (snd (iteration misfit_world 0 ''issue'' ?s0)) = []"
    by blast
  from tool_result_turns[of unknown_tool_world 0 "''issue''" ?s0 Map.empty 5 ?s0 ?tc] h
  have 2: "filter (\<lambda>m. role m = ''tool'')
      (appended ?s0 (snd (iteration unknown_tool_world 0 ''issue'' ?s0))) = []"
    by blast
  have mem: "user_message ''issue'' \<in> set (conversation ?s0)"
    by (simp add: conversation_def initial_state_def)
  from tool_result_turns[of failing_world 0 "''issue''" ?s0 Map.empty 5 ?s0 ?tc] mem
  have 3: "role (user_message ''issue'') \<noteq> ''tool''"
    by blast
  have i: "attempt ?s0 = 0" "successfulCode ?s0 = None"
    by (simp_all add: initial_state_def)
  from failing_runs_exhaust[OF failing_world_fails, of 5 ?s0 0 5 "''issue''"] i
  obtain s1 where "fix_loop failing_world ''issue'' 5 0 ?s0 = Some s1" by auto
  then have run: "streamFixProcess failing_world ''issue'' Map.empty 5 = Some (finish s1)"
    by (simp add: streamFixProcess_def)
  from tool_result_turns[of failing_world 0 "''issue''" ?s0 Map.empty 5 "finish s1" ?tc] run
  have 4: "\<exists>final. streamFixProcess failing_world ''issue'' Map.empty 5 = Some final
         \<and> (\<forall>m\<in>set (chatMessages final). (role m = ''user'' \<or> role m = ''tool''))"
    by blast
  from 1 2 3 4 5 show ?thesis by blast
qed

text \<open>
  Claim C3 as stated fails. After one pass with a failed run the conversation is a user
  turn, a tool turn and a user turn: the tool turn follows no assistant turn. A tool
  call with an unknown name gets no result turn, and neither does a call of
  \<^verbatim>\<open>run_python_code\<close> whose arguments parse to \<^verbatim>\<open>null\<close>.
\<close>

theorem tool_turn_without_request_counterexample:
  "chatMessages (snd (iteration failing_world 0 ''issue'' (initial_state ''issue'' Map.empty)))
     = [user_message ''issue'',
        tool_message (JsonResult \<lparr>success = False, output = ''AssertionError''\<rparr>) ''call_1'',
        user_message ''The tests failed with the error: AssertionError. The code: def fix(): return 0. The original issue: issue. Please improve the code fix accordingly.'']
   \<and> \<not> tool_turns_follow_request False
         (chatMessages (snd (iteration failing_world 0 ''issue'' (initial_state ''issue'' Map.empty))))
   \<and> llm unknown_tool_world 0 (conversation (initial_state ''issue'' Map.empty))
       = ToolCall \<lparr>tc_id = ''call_9'', tc_name = ''search_docs'', tc_arguments = ''x''\<rparr>
   \<and> chatMessages (snd (iteration unknown_tool_world 0 ''issue'' (initial_state ''issue'' Map.empty)))
       = [user_message ''issue'']
   \<and> llm misfit_world 0 (conversation (initial_state ''issue'' Map.empty))
       = ToolCall \<lparr>tc_id = ''call_2'', tc_name = ''run_python_code'', tc_arguments = ''null''\<rparr>
   \<and> parse_run misfit_world ''null'' = Throws ''Cannot destructure property of null''
   \<and> chatMessages (snd (iteration misfit_world 0 ''issue'' (initial_state ''issue'' Map.empty)))
       = [user_message ''issue'']"
proof -
  have "\<not> tool_turns_follow_request False
      [user_message ''issue'',
       tool_message (JsonResult \<lparr>success = False, output = ''AssertionError''\<rparr>) ''call_1'',
       user_message ''The tests failed with the error: AssertionError. The code: def fix(): return 0. The original issue: issue. Please improve the code fix accordingly.'']"
    by simp
  moreover have "llm unknown_tool_world 0 (conversation (initial_state ''issue'' Map.empty))
       = ToolCall \<lparr>tc_id = ''call_9'', tc_name = ''search_docs'', tc_arguments = ''x''\<rparr>"
    by (simp add: unknown_tool_world_def)
  moreover have "llm misfit_world 0 (conversation (initial_state ''issue'' Map.empty))
       = ToolCall \<lparr>tc_id = ''call_2'', tc_name = ''run_python_code'', tc_arguments = ''null''\<rparr>"
    by (simp add: misfit_world_def run_call_def)
  moreover have "parse_run misfit_world ''null'' = Throws ''Cannot destructure property of null''"
    by (simp add: misfit_world_def)
  ultimately show ?thesis
    using failing_world_first_pass unknown_tool_first_pass misfit_first_pass by simp
qed

end
